theory Spec2Isabelle
  imports Complex_Main "HOL-Library.Sublist"
begin

section \<open>Generic utilities (util.py)\<close>

subsection \<open>filter\_params\<close>

text \<open>
  \<^verbatim>\<open>
  def filter_params(params):
      filter_list = []
      for p in params:
          if p not in filter_list:
              filter_list.append(p)
      return filter_list
  \<close>
  The loop body is \<open>filter_params_step\<close>; the loop is a left fold over the input,
  starting from the empty accumulator.
\<close>

definition filter_params_step :: "'a \<Rightarrow> 'a list \<Rightarrow> 'a list" where
  "filter_params_step p filter_list =
     (if p \<notin> set filter_list then filter_list @ [p] else filter_list)"

definition filter_params :: "'a list \<Rightarrow> 'a list" where
  "filter_params params = fold filter_params_step params []"

text \<open>
  The specification's reading of the result, written independently of the loop: the
  elements of the input, in input order, at exactly those positions whose element does not
  occur at an earlier position.
\<close>

definition first_occurrences :: "'a list \<Rightarrow> 'a list" where
  "first_occurrences xs =
     map (\<lambda>i. xs ! i) (filter (\<lambda>i. xs ! i \<notin> set (take i xs)) [0..<length xs])"

section \<open>Host data: scene, objects, duplis, particle systems\<close>

text \<open>
  The add-on runs inside a host application. The parts of the host that \<^verbatim>\<open>util.py\<close>
  reads and writes are modelled as plain data:
  \<^item> a matrix is a list of rows, a vector a triple of coordinates, Python floats are reals;
  \<^item> host objects and particles are referred to by an identity (a number), as the Python
    dictionaries key on the identity of the particle;
  \<^item> whatever the host recomputes when the frame changes (the dupli list it generates,
    the particles of a system and their location, size and state, the scale of an
    object) is a function of the scene time, a pair of frame and sub-frame.
\<close>

type_synonym matrix = "real list list"
type_synonym vec3 = "real \<times> real \<times> real"
type_synonym obj_ref = nat
type_synonym particle_ref = nat
type_synonym scene_time = "int \<times> real"

datatype py_error =
  IndexError | TypeError | UnboundLocalError | AttributeError | ZeroDivisionError | KeyError

record dupli =
  dupli_object :: obj_ref
  dupli_matrix :: matrix

text \<open>
  The scene: \<^verbatim>\<open>scene.frame_current\<close>, \<^verbatim>\<open>scene.frame_subframe\<close>, the settings under
  \<^verbatim>\<open>scene.appleseed\<close>, and the scale of the objects of the scene at a scene time.
\<close>

record scene =
  frame_current :: int
  frame_subframe :: real
  scene_enable_motion_blur :: bool
  enable_object_blur :: bool
  enable_deformation_blur :: bool
  shutter_open :: real
  shutter_close :: real
  object_scale :: "scene_time \<Rightarrow> obj_ref \<Rightarrow> vec3"

definition scene_now :: "scene \<Rightarrow> scene_time" where
  "scene_now scn = (frame_current scn, frame_subframe scn)"

text \<open>
  \<^verbatim>\<open>scene.frame_set(frame, subframe=0.0)\<close> is the host's. The host does not store
  its two arguments as they are: it adds them to one time value and splits that value
  again into its integral part, which becomes the current frame, and the rest, which
  becomes the current sub-frame. So \<^verbatim>\<open>frame_set(10, subframe=0.25)\<close> leaves the scene
  at frame 10, sub-frame 0.25, and \<^verbatim>\<open>frame_set(10, subframe=1.0)\<close> leaves it at frame
  11, sub-frame 0. The integral part is taken towards zero, as the C function
  \<^verbatim>\<open>modf\<close> does. (The host also keeps the time value within its frame range; frame
  numbers are unbounded here.)
\<close>

definition split_frame :: "real \<Rightarrow> scene_time" where
  "split_frame cfra =
     (let intpart = (if 0 \<le> cfra then \<lfloor>cfra\<rfloor> else \<lceil>cfra\<rceil>)
      in (intpart, cfra - real_of_int intpart))"

definition frame_set :: "int \<Rightarrow> real \<Rightarrow> scene \<Rightarrow> scene" where
  "frame_set frame subframe scn =
     (let cfra = real_of_int frame + subframe
      in scn\<lparr>frame_current := fst (split_frame cfra),
             frame_subframe := snd (split_frame cfra)\<rparr>)"

record particle_system =
  psys_type :: string
  render_type :: string
  particles :: "scene_time \<Rightarrow> particle_ref list"
  alive_state :: "scene_time \<Rightarrow> particle_ref \<Rightarrow> string"
  particle_size :: "scene_time \<Rightarrow> particle_ref \<Rightarrow> real"
  particle_location :: "scene_time \<Rightarrow> particle_ref \<Rightarrow> vec3"

record modifier =
  modifier_type :: string
  show_render :: bool
  modifier_psys :: particle_system

text \<open>
  The parent object. \<open>dupli_source\<close> is what the host would generate for it under given
  settings at a scene time; \<open>dupli_list\<close> is the transient list, empty unless created;
  \<open>dupli_calls\<close> records each \<^verbatim>\<open>dupli_list_create\<close> call with its settings and scene time.
\<close>

record bl_object =
  ob_enable_motion_blur :: bool
  motion_blur_type :: string
  has_modifiers :: bool
  modifiers :: "modifier list"
  dupli_source :: "string \<Rightarrow> scene_time \<Rightarrow> dupli list"
  dupli_list :: "dupli list"
  dupli_calls :: "(string \<times> scene_time) list"

definition dupli_list_create :: "scene \<Rightarrow> string \<Rightarrow> bl_object \<Rightarrow> bl_object" where
  "dupli_list_create scn settings ob =
     ob\<lparr>dupli_list := dupli_source ob settings (scene_now scn),
        dupli_calls := dupli_calls ob @ [(settings, scene_now scn)]\<rparr>"

definition dupli_list_clear :: "bl_object \<Rightarrow> bl_object" where
  "dupli_list_clear ob = ob\<lparr>dupli_list := []\<rparr>"

subsection \<open>The matrix library\<close>

text \<open>
  \<^verbatim>\<open>mathutils.Matrix.Translation(v)\<close>, \<^verbatim>\<open>mathutils.Matrix.Scale(factor, 4, axis)\<close> for a
  unit axis, the matrix product, and a vector times a number.
\<close>

definition Matrix_Translation :: "vec3 \<Rightarrow> matrix" where
  "Matrix_Translation v =
     (case v of (x, y, z) \<Rightarrow>
        [[1, 0, 0, x], [0, 1, 0, y], [0, 0, 1, z], [0, 0, 0, 1]])"

definition Matrix_Scale :: "real \<Rightarrow> vec3 \<Rightarrow> matrix" where
  "Matrix_Scale factor axis =
     (case axis of (ax, ay, az) \<Rightarrow>
        [[1 + (factor - 1) * ax * ax, (factor - 1) * ax * ay, (factor - 1) * ax * az, 0],
         [(factor - 1) * ax * ay, 1 + (factor - 1) * ay * ay, (factor - 1) * ay * az, 0],
         [(factor - 1) * ax * az, (factor - 1) * ay * az, 1 + (factor - 1) * az * az, 0],
         [0, 0, 0, 1]])"

definition mat_mul :: "matrix \<Rightarrow> matrix \<Rightarrow> matrix" where
  "mat_mul a b = map (\<lambda>row. map (\<lambda>col. sum_list (map2 (*) row col)) (transpose b)) a"

definition vec_times :: "vec3 \<Rightarrow> real \<Rightarrow> vec3" where
  "vec_times v k = (case v of (x, y, z) \<Rightarrow> (x * k, y * k, z * k))"

definition vec_x :: "vec3 \<Rightarrow> real" where
  "vec_x v = fst v"

definition vec_y :: "vec3 \<Rightarrow> real" where
  "vec_y v = fst (snd v)"

definition vec_z :: "vec3 \<Rightarrow> real" where
  "vec_z v = snd (snd v)"

subsection \<open>Python dictionaries\<close>

text \<open>
  A dictionary is an association list in insertion order with one entry per key:
  assigning to a key that is present replaces the value in place.
\<close>

fun dict_set :: "'k \<Rightarrow> 'v \<Rightarrow> ('k \<times> 'v) list \<Rightarrow> ('k \<times> 'v) list" where
  "dict_set k v [] = [(k, v)]"
| "dict_set k v ((k', v') # d) =
     (if k' = k then (k', v) # d else (k', v') # dict_set k v d)"

definition dict_of_pairs :: "('k \<times> 'v) list \<Rightarrow> ('k \<times> 'v) list" where
  "dict_of_pairs ps = fold (\<lambda>kv d. dict_set (fst kv) (snd kv) d) ps []"

definition dict_update :: "('k \<times> 'v) list \<Rightarrow> ('k \<times> 'v) list \<Rightarrow> ('k \<times> 'v) list" where
  "dict_update d other = fold (\<lambda>kv d. dict_set (fst kv) (snd kv) d) other d"

type_synonym dupli_dict = "(particle_ref \<times> obj_ref \<times> matrix list) list"

section \<open>Object and instance utilities (util.py)\<close>

definition ob_mblur_enabled :: "bl_object \<Rightarrow> scene \<Rightarrow> bool" where
  "ob_mblur_enabled object scn \<longleftrightarrow>
     ob_enable_motion_blur object \<and> motion_blur_type object = ''object'' \<and>
     scene_enable_motion_blur scn \<and> enable_object_blur scn"

subsection \<open>sample\_mblur\<close>

text \<open>
  The loop at shutter close:
  \<^verbatim>\<open>
  for m in range(0, len(ob.dupli_list)):
      matrices[m][1].append(ob.dupli_list[m].matrix.copy())
  \<close>
  \<^verbatim>\<open>matrices[m]\<close> raises IndexError when \<open>m\<close> is beyond the list collected at shutter
  open; \<^verbatim>\<open>ob.dupli_list[m]\<close> is in range by the loop bound.
\<close>

fun append_close_samples ::
  "nat list \<Rightarrow> dupli list \<Rightarrow> (obj_ref \<times> matrix list) list \<Rightarrow>
   py_error + (obj_ref \<times> matrix list) list" where
  "append_close_samples [] dl matrices = Inr matrices"
| "append_close_samples (m # ms) dl matrices =
     (if m < length matrices
      then append_close_samples ms dl
             (matrices[m := (fst (matrices ! m), snd (matrices ! m) @ [dupli_matrix (dl ! m)])])
      else Inl IndexError)"

text \<open>
  \<^verbatim>\<open>sample_mblur(ob, scene, dupli=False)\<close>. The result carries the object and the scene
  as the call leaves them, also when it raises: on IndexError the dupli list is not
  cleared and the final \<^verbatim>\<open>frame_set(frame_orig)\<close> is not reached. A bare
  \<^verbatim>\<open>dupli_list_create(scene)\<close> uses the host's default settings, \<^verbatim>\<open>'VIEWPORT'\<close>.
\<close>

definition sample_mblur ::
  "bl_object \<Rightarrow> scene \<Rightarrow> bool \<Rightarrow>
   (py_error + (obj_ref \<times> matrix list) list) \<times> bl_object \<times> scene" where
  "sample_mblur ob scn dupli =
     (let frame_orig = frame_current scn;
          scn1 = frame_set frame_orig (shutter_open scn) scn;
          ob1 = dupli_list_create scn1 ''VIEWPORT'' ob;
          matrices = map (\<lambda>d. (dupli_object d, [dupli_matrix d])) (dupli_list ob1);
          ob2 = dupli_list_clear ob1;
          scn2 = frame_set frame_orig (shutter_close scn1) scn1;
          ob3 = dupli_list_create scn2 ''VIEWPORT'' ob2
      in case append_close_samples [0..<length (dupli_list ob3)] (dupli_list ob3) matrices of
           Inl e \<Rightarrow> (Inl e, ob3, scn2)
         | Inr matrices' \<Rightarrow> (Inr matrices', dupli_list_clear ob3, frame_set frame_orig 0 scn2))"

subsection \<open>get\_instances\<close>

text \<open>
  An entry of the result is \<^verbatim>\<open>[dupli.object, matrix]\<close> without motion blur and
  \<^verbatim>\<open>[dupli.object, [matrices]]\<close> with it.
\<close>

datatype instance_transform = Matrix matrix | Matrices "matrix list"

definition get_instances ::
  "bl_object \<Rightarrow> scene \<Rightarrow>
   (py_error + (obj_ref \<times> instance_transform) list) \<times> bl_object \<times> scene" where
  "get_instances obj_parent scn =
     (if ob_mblur_enabled obj_parent scn
      then (case sample_mblur obj_parent scn True of
              (Inl e, st) \<Rightarrow> (Inl e, st)
            | (Inr matrices, st) \<Rightarrow> (Inr (map (\<lambda>e. (fst e, Matrices (snd e))) matrices), st))
      else (let ob1 = dupli_list_create scn ''VIEWPORT'' obj_parent;
                result = map (\<lambda>d. (dupli_object d, Matrix (dupli_matrix d))) (dupli_list ob1)
            in (Inr result, dupli_list_clear ob1, scn)))"

section \<open>Particle system utilities (util.py)\<close>

text \<open>
  The particles a system contributes, read at the current scene time:
  \<^verbatim>\<open>
  if psys.settings.type == 'EMITTER':
      particles = [p for p in psys.particles if p.alive_state == 'ALIVE']
  else:
      particles = [p for p in psys.particles]
  \<close>
\<close>

definition psys_particles :: "scene \<Rightarrow> particle_system \<Rightarrow> particle_ref list" where
  "psys_particles scn psys =
     (if psys_type psys = ''EMITTER''
      then filter (\<lambda>p. alive_state psys (scene_now scn) p = ''ALIVE'') (particles psys (scene_now scn))
      else particles psys (scene_now scn))"

text \<open>
  \<^verbatim>\<open>for dupli_index in range(start, current_total): duplis.append(ob.dupli_list[dupli_index].object)\<close>,
  called on the list of indices; an index beyond the dupli list raises IndexError.
\<close>

fun dupli_objects_at :: "dupli list \<Rightarrow> nat list \<Rightarrow> py_error + obj_ref list" where
  "dupli_objects_at dl [] = Inr []"
| "dupli_objects_at dl (i # is) =
     (if i < length dl
      then (case dupli_objects_at dl is of
              Inl e \<Rightarrow> Inl e
            | Inr duplis \<Rightarrow> Inr (dupli_object (dl ! i) # duplis))
      else Inl IndexError)"

text \<open>
  The matrix of an emitter particle, from its location and size and the scale of the
  object it instances:
  \<^verbatim>\<open>
  scale = dupli_dict[particle][0].scale * size
  transl = mathutils.Matrix.Translation((loc))
  scale = Matrix.Scale(scale.x, 4, (1, 0, 0)) * Matrix.Scale(scale.y, 4, (0, 1, 0))
          * Matrix.Scale(scale.z, 4, (0, 0, 1))
  mat = transl * scale
  \<close>
\<close>

definition emitter_matrix :: "vec3 \<Rightarrow> real \<Rightarrow> vec3 \<Rightarrow> matrix" where
  "emitter_matrix loc psize ob_scale =
     (let scale = vec_times ob_scale psize;
          transl = Matrix_Translation loc;
          scale_matrix =
            mat_mul (mat_mul (Matrix_Scale (vec_x scale) (1, 0, 0))
                             (Matrix_Scale (vec_y scale) (0, 1, 0)))
                    (Matrix_Scale (vec_z scale) (0, 0, 1))
      in mat_mul transl scale_matrix)"

text \<open>
  One pass of \<^verbatim>\<open>for particle in dupli_dict.keys(): ...; dupli_dict[particle][1].append(mat)\<close>
  for an emitter system: every entry of the dictionary gets one more matrix, computed at
  the current scene time.
\<close>

definition emitter_append :: "scene \<Rightarrow> particle_system \<Rightarrow> dupli_dict \<Rightarrow> dupli_dict" where
  "emitter_append scn psys d =
     map (\<lambda>e. (fst e, fst (snd e),
                snd (snd e) @
                  [emitter_matrix (particle_location psys (scene_now scn) (fst e))
                     (particle_size psys (scene_now scn) (fst e))
                     (object_scale scn (scene_now scn) (fst (snd e)))])) d"

text \<open>
  The dictionary of one particle system without motion blur (the branch
  \<^verbatim>\<open>if not ob_mblur_enabled(ob, scene)\<close> of the loop body, after the duplis were collected).
\<close>

definition static_dupli_dict ::
  "scene \<Rightarrow> particle_system \<Rightarrow> particle_ref list \<Rightarrow> obj_ref list \<Rightarrow> dupli list \<Rightarrow> dupli_dict" where
  "static_dupli_dict scn psys parts duplis dl =
     (if psys_type psys = ''EMITTER''
      then emitter_append scn psys (dict_of_pairs (map (\<lambda>p. (fst p, snd p, [])) (zip parts duplis)))
      else dict_of_pairs
             (map (\<lambda>p. (fst p, fst (snd p), [snd (snd p)]))
                (zip parts (zip duplis (map dupli_matrix dl)))))"

subsection \<open>sample\_psys\_mblur\<close>

text \<open>
  \<^verbatim>\<open>for frame in {asr_scn.shutter_open, asr_scn.shutter_close}\<close> iterates over a Python
  set: one element when the two values are equal, otherwise both, in the order of the
  interpreter's hash table, which is the parameter \<open>ord\<close> (\<open>ord a b\<close>: \<open>a\<close> comes first).
\<close>

definition shutter_frames :: "(real \<Rightarrow> real \<Rightarrow> bool) \<Rightarrow> scene \<Rightarrow> real list" where
  "shutter_frames ord scn =
     (if shutter_open scn = shutter_close scn then [shutter_open scn]
      else if ord (shutter_open scn) (shutter_close scn)
      then [shutter_open scn, shutter_close scn]
      else [shutter_close scn, shutter_open scn])"

text \<open>The value returned: the bare \<^verbatim>\<open>False\<close>, or the pair \<^verbatim>\<open>dupli_dict, index\<close>.\<close>

datatype psys_mblur_result = ReturnFalse | ReturnPair dupli_dict nat

text \<open>
  The frame loop of the emitter branch. Each pass resets \<open>new_index\<close> to \<open>index\<close>, sets the
  frame, and appends one matrix per key, counting the keys in \<open>new_index\<close>.
\<close>

fun emitter_frames ::
  "real list \<Rightarrow> int \<Rightarrow> particle_system \<Rightarrow> nat \<Rightarrow> nat \<Rightarrow> dupli_dict \<Rightarrow> scene \<Rightarrow>
   dupli_dict \<times> nat \<times> scene" where
  "emitter_frames [] frame_orig psys index new_index d scn = (d, new_index, scn)"
| "emitter_frames (frame # frames) frame_orig psys index new_index d scn =
     (let scn' = frame_set frame_orig frame scn
      in emitter_frames frames frame_orig psys index (index + length d)
           (emitter_append scn' psys d) scn')"

text \<open>
  The inner loop of the hair branch:
  \<^verbatim>\<open>
  for particle in dupli_dict.keys():
      mat = ob.dupli_list[new_index].matrix.copy()
      dupli_dict[particle][1].append(mat)
      new_index += 1
  \<close>
\<close>

fun hair_append :: "dupli list \<Rightarrow> nat \<Rightarrow> dupli_dict \<Rightarrow> py_error + dupli_dict" where
  "hair_append dl new_index [] = Inr []"
| "hair_append dl new_index (e # d) =
     (if new_index < length dl
      then (case hair_append dl (Suc new_index) d of
              Inl err \<Rightarrow> Inl err
            | Inr d' \<Rightarrow>
                Inr ((fst e, fst (snd e), snd (snd e) @ [dupli_matrix (dl ! new_index)]) # d'))
      else Inl IndexError)"

fun hair_frames ::
  "real list \<Rightarrow> int \<Rightarrow> nat \<Rightarrow> nat \<Rightarrow> dupli_dict \<Rightarrow> bl_object \<Rightarrow> scene \<Rightarrow>
   (py_error + dupli_dict \<times> nat) \<times> bl_object \<times> scene" where
  "hair_frames [] frame_orig index new_index d ob scn = (Inr (d, new_index), ob, scn)"
| "hair_frames (frame # frames) frame_orig index new_index d ob scn =
     (let scn' = frame_set frame_orig frame scn;
          ob' = dupli_list_create scn' ''RENDER'' ob
      in case hair_append (dupli_list ob') index d of
           Inl err \<Rightarrow> (Inl err, ob', scn')
         | Inr d' \<Rightarrow>
             hair_frames frames frame_orig index (index + length d) d' (dupli_list_clear ob') scn')"

text \<open>
  The emitter branch of \<^verbatim>\<open>sample_psys_mblur\<close> (\<^verbatim>\<open>if psys.settings.type == 'EMITTER'\<close>)
  together with its part of the clean-up. \<^verbatim>\<open>del scale, transl, mat\<close> raises
  UnboundLocalError when the loop body never ran, that is when the dictionary has no key.
\<close>

definition psys_mblur_emitter ::
  "(real \<Rightarrow> real \<Rightarrow> bool) \<Rightarrow> bl_object \<Rightarrow> scene \<Rightarrow> int \<Rightarrow> particle_system \<Rightarrow> nat \<Rightarrow>
   particle_ref list \<Rightarrow> (py_error + psys_mblur_result) \<times> bl_object \<times> scene" where
  "psys_mblur_emitter ord ob scn1 frame_orig psys index parts =
     (let ob1 = dupli_list_create scn1 ''RENDER'' ob;
          duplis = map dupli_object (dupli_list ob1);
          dupli_dict = dict_of_pairs (map (\<lambda>p. (fst p, snd p, [])) (zip parts duplis))
      in case emitter_frames (shutter_frames ord scn1) frame_orig psys index index
                dupli_dict scn1 of
           (dupli_dict', new_index, scn2) \<Rightarrow>
             if dupli_dict' = [] then (Inl UnboundLocalError, ob1, scn2)
             else (Inr (ReturnPair dupli_dict' (index + new_index)),
                   dupli_list_clear ob1, frame_set frame_orig 0 scn2))"

text \<open>The hair branch (\<^verbatim>\<open>else\<close>) together with its part of the clean-up.\<close>

definition psys_mblur_hair ::
  "(real \<Rightarrow> real \<Rightarrow> bool) \<Rightarrow> bl_object \<Rightarrow> scene \<Rightarrow> int \<Rightarrow> nat \<Rightarrow> nat \<Rightarrow> nat \<Rightarrow>
   particle_ref list \<Rightarrow> (py_error + psys_mblur_result) \<times> bl_object \<times> scene" where
  "psys_mblur_hair ord ob scn1 frame_orig index start current_total parts =
     (let ob1 = dupli_list_create scn1 ''RENDER'' ob
      in case dupli_objects_at (dupli_list ob1) [start..<current_total] of
           Inl err \<Rightarrow> (Inl err, ob1, scn1)
         | Inr duplis \<Rightarrow>
             (let dupli_dict = dict_of_pairs (map (\<lambda>p. (fst p, snd p, [])) (zip parts duplis));
                  ob2 = dupli_list_clear ob1
              in case hair_frames (shutter_frames ord scn1) frame_orig index index
                        dupli_dict ob2 scn1 of
                   (Inl err, ob3, scn2) \<Rightarrow> (Inl err, ob3, scn2)
                 | (Inr (dupli_dict', new_index), ob3, scn2) \<Rightarrow>
                     (Inr (ReturnPair dupli_dict' (index + new_index)), ob3,
                      frame_set frame_orig 0 scn2)))"

text \<open>
  \<^verbatim>\<open>sample_psys_mblur(ob, scene, psys, index, start, current_total)\<close>: the frame is set
  to the shutter-open sub-frame, the particles are collected, and an empty list returns
  \<^verbatim>\<open>False\<close> at once. The indices are natural numbers: the caller starts them at 0 and
  only adds to them.
\<close>

definition sample_psys_mblur ::
  "(real \<Rightarrow> real \<Rightarrow> bool) \<Rightarrow> bl_object \<Rightarrow> scene \<Rightarrow> particle_system \<Rightarrow> nat \<Rightarrow> nat \<Rightarrow> nat \<Rightarrow>
   (py_error + psys_mblur_result) \<times> bl_object \<times> scene" where
  "sample_psys_mblur ord ob scn psys index start current_total =
     (let frame_orig = frame_current scn;
          scn1 = frame_set frame_orig (shutter_open scn) scn;
          parts = psys_particles scn1 psys
      in if length parts = 0 then (Inr ReturnFalse, ob, scn1)
         else if psys_type psys = ''EMITTER''
         then psys_mblur_emitter ord ob scn1 frame_orig psys index parts
         else psys_mblur_hair ord ob scn1 frame_orig index start current_total parts)"

subsection \<open>get\_psys\_instances\<close>

text \<open>
  The modifiers whose particle system the loop of \<^verbatim>\<open>get_psys_instances\<close> processes:
  a render-visible particle-system modifier whose render type is \<^verbatim>\<open>'OBJECT'\<close> or
  \<^verbatim>\<open>'GROUP'\<close>.
\<close>

definition psys_selected :: "modifier \<Rightarrow> bool" where
  "psys_selected m \<longleftrightarrow>
     modifier_type m = ''PARTICLE_SYSTEM'' \<and> show_render m \<and>
     render_type (modifier_psys m) \<in> {''OBJECT'', ''GROUP''}"

text \<open>
  The body of \<^verbatim>\<open>for modifier in ob.modifiers\<close>, with the loop variables
  \<open>all_duplis\<close>, \<open>current_total\<close> and \<open>index\<close>. Unpacking
  \<^verbatim>\<open>dupli_dict, index = sample_psys_mblur(...)\<close> raises TypeError when the call
  returned \<^verbatim>\<open>False\<close>.
\<close>

fun get_psys_instances_loop ::
  "(real \<Rightarrow> real \<Rightarrow> bool) \<Rightarrow> modifier list \<Rightarrow> dupli_dict \<Rightarrow> nat \<Rightarrow> nat \<Rightarrow> bl_object \<Rightarrow> scene \<Rightarrow>
   (py_error + dupli_dict) \<times> bl_object \<times> scene" where
  "get_psys_instances_loop ord [] all_duplis current_total index ob scn =
     (Inr all_duplis, ob, scn)"
| "get_psys_instances_loop ord (modifier # rest) all_duplis current_total index ob scn =
     (if modifier_type modifier = ''PARTICLE_SYSTEM'' \<and> show_render modifier
      then (let psys = modifier_psys modifier
            in if render_type psys \<notin> {''OBJECT'', ''GROUP''}
               then get_psys_instances_loop ord rest all_duplis current_total index ob scn
               else (let parts = psys_particles scn psys;
                         start = current_total;
                         current_total' = current_total + length parts
                     in if \<not> ob_mblur_enabled ob scn
                        then (case dupli_objects_at (dupli_list ob) [start..<current_total'] of
                                Inl err \<Rightarrow> (Inl err, ob, scn)
                              | Inr duplis \<Rightarrow>
                                  get_psys_instances_loop ord rest
                                    (dict_update all_duplis
                                       (static_dupli_dict scn psys parts duplis (dupli_list ob)))
                                    current_total' index ob scn)
                        else (case sample_psys_mblur ord ob scn psys index start current_total' of
                                (Inl err, ob', scn') \<Rightarrow> (Inl err, ob', scn')
                              | (Inr ReturnFalse, ob', scn') \<Rightarrow> (Inl TypeError, ob', scn')
                              | (Inr (ReturnPair dupli_dict index'), ob', scn') \<Rightarrow>
                                  get_psys_instances_loop ord rest
                                    (dict_update all_duplis dupli_dict)
                                    current_total' index' ob' scn')))
      else get_psys_instances_loop ord rest all_duplis current_total index ob scn)"

definition get_psys_instances ::
  "(real \<Rightarrow> real \<Rightarrow> bool) \<Rightarrow> bl_object \<Rightarrow> scene \<Rightarrow> (py_error + dupli_dict) \<times> bl_object \<times> scene" where
  "get_psys_instances ord ob scn =
     (if \<not> has_modifiers ob then (Inr [], ob, scn)
      else (let ob1 = (if \<not> ob_mblur_enabled ob scn
                       then dupli_list_create scn ''RENDER'' ob else ob)
            in case get_psys_instances_loop ord (modifiers ob1) [] 0 0 ob1 scn of
                 (Inl err, ob2, scn2) \<Rightarrow> (Inl err, ob2, scn2)
               | (Inr all_duplis, ob2, scn2) \<Rightarrow>
                   (Inr all_duplis,
                    (if \<not> ob_mblur_enabled ob2 scn2 then dupli_list_clear ob2 else ob2),
                    scn2)))"

section \<open>OSL shader discovery (util.py)\<close>

subsection \<open>Strings and values\<close>

text \<open>
  \<^verbatim>\<open>str.replace(old, new)\<close> and \<^verbatim>\<open>str.split(sep)\<close> for a non-empty \<open>old\<close> and
  \<open>sep\<close>, scanning from the left. (With an empty \<open>old\<close> or \<open>sep\<close>, which the code never
  passes, the string is returned as it is.)
\<close>

function py_replace :: "string \<Rightarrow> string \<Rightarrow> string \<Rightarrow> string" where
  "py_replace old new s =
     (if s = [] \<or> old = [] then s
      else if prefix old s then new @ py_replace old new (drop (length old) s)
      else hd s # py_replace old new (tl s))"
  by pat_completeness auto
termination
  by (relation "measure (\<lambda>(old, new, s). length s)") auto

function split_from :: "string \<Rightarrow> string \<Rightarrow> string \<Rightarrow> string list" where
  "split_from sep cur s =
     (if s = [] \<or> sep = [] then [cur @ s]
      else if prefix sep s then cur # split_from sep [] (drop (length sep) s)
      else split_from sep (cur @ [hd s]) (tl s))"
  by pat_completeness auto
termination
  by (relation "measure (\<lambda>(sep, cur, s). length s)") auto

definition py_split :: "string \<Rightarrow> string \<Rightarrow> string list" where
  "py_split sep s = split_from sep [] s"

text \<open>The values found in the dictionaries the shader query returns.\<close>

datatype pyval =
  PStr string | PNum real | PBool bool | PList "pyval list" | PDict "(string \<times> pyval) list"

definition py_getitem :: "(string \<times> pyval) list \<Rightarrow> string \<Rightarrow> py_error + pyval" where
  "py_getitem d k = (case map_of d k of None \<Rightarrow> Inl KeyError | Some v \<Rightarrow> Inr v)"

definition err_bind :: "py_error + 'a \<Rightarrow> ('a \<Rightarrow> py_error + 'b) \<Rightarrow> py_error + 'b" where
  "err_bind r f = (case r of Inl e \<Rightarrow> Inl e | Inr v \<Rightarrow> f v)"

subsection \<open>The environment\<close>

text \<open>
  What the function reads from outside: the add-on preference, the path functions of the
  operating system and of the host, the directory listing, and what the renderer's
  \<^verbatim>\<open>ShaderQuery\<close> reports about a file once it was opened.
\<close>

record shader_data =
  sq_metadata :: "(string \<times> pyval) list"
  sq_shader_name :: string
  sq_params :: "(string \<times> pyval) list list"

record osl_env =
  appleseed_binary_directory :: string
  bpy_abspath :: "string \<Rightarrow> string"
  os_realpath :: "string \<Rightarrow> string"
  os_basename :: "string \<Rightarrow> string"
  os_dirname :: "string \<Rightarrow> string"
  os_join :: "string \<Rightarrow> string \<Rightarrow> string"
  os_isdir :: "string \<Rightarrow> bool"
  os_listdir :: "string \<Rightarrow> string list"
  shader_query :: "string \<Rightarrow> shader_data"

text \<open>
  What the function writes: the records handed to the logger (level and message) and
  the files handed to \<^verbatim>\<open>ShaderQuery.open\<close>.
\<close>

record osl_state =
  log_records :: "(string \<times> string) list"
  opened_files :: "string list"

definition logger :: "string \<Rightarrow> string \<Rightarrow> osl_state \<Rightarrow> osl_state" where
  "logger level msg st = st\<lparr>log_records := log_records st @ [(level, msg)]\<rparr>"

subsection \<open>Paths\<close>

definition realpath :: "osl_env \<Rightarrow> string \<Rightarrow> string" where
  "realpath env path =
     (let path1 = (if prefix ''//'' path then bpy_abspath env path else os_realpath env path);
          path2 = py_replace [CHR 0x5C] ''/'' path1
      in os_realpath env path2)"

definition get_appleseed_bin_dir :: "osl_env \<Rightarrow> string" where
  "get_appleseed_bin_dir env =
     (let appleseed_bin_dir = appleseed_binary_directory env
      in if appleseed_bin_dir \<noteq> [] then realpath env appleseed_bin_dir else appleseed_bin_dir)"

text \<open>
  \<^verbatim>\<open>while os.path.basename(appleseed_parent_dir) != 'bin': appleseed_parent_dir = os.path.dirname(appleseed_parent_dir)\<close>.
  The loop does not end on a path with no component \<^verbatim>\<open>bin\<close>: the result is \<open>None\<close> then.
\<close>

partial_function (option) find_bin_dir :: "osl_env \<Rightarrow> string \<Rightarrow> string option" where
  "find_bin_dir env d =
     (if os_basename env d \<noteq> ''bin'' then find_bin_dir env (os_dirname env d) else Some d)"

definition get_osl_search_paths :: "osl_env \<Rightarrow> (string \<times> string list) option" where
  "get_osl_search_paths env =
     (case find_bin_dir env (get_appleseed_bin_dir env) of
        None \<Rightarrow> None
      | Some d \<Rightarrow>
          (let appleseed_parent_dir = os_dirname env d;
               shader_directories =
                 [os_join env (os_join env appleseed_parent_dir ''shaders'') ''appleseed'',
                  os_join env (os_join env appleseed_parent_dir ''shaders'') ''blenderseed''];
               tool_dir = os_join env appleseed_parent_dir ''bin''
           in Some (tool_dir, shader_directories)))"

subsection \<open>One parameter, one shader\<close>

text \<open>\<^verbatim>\<open>metadata[key]['value']\<close>.\<close>

definition meta_value :: "(string \<times> pyval) list \<Rightarrow> string \<Rightarrow> py_error + pyval" where
  "meta_value metadata key =
     (case map_of metadata key of
        None \<Rightarrow> Inl KeyError
      | Some (PDict entry) \<Rightarrow> py_getitem entry ''value''
      | Some _ \<Rightarrow> Inl TypeError)"

text \<open>\<^verbatim>\<open>if key in metadata_keys: param_data[key] = metadata[key]['value']\<close>.\<close>

definition copy_meta ::
  "string \<Rightarrow> (string \<times> pyval) list \<Rightarrow> (string \<times> pyval) list \<Rightarrow>
   py_error + (string \<times> pyval) list" where
  "copy_meta key metadata param_data =
     (if key \<in> set (map fst metadata)
      then err_bind (meta_value metadata key) (\<lambda>v. Inr (dict_set key v param_data))
      else Inr param_data)"

text \<open>
  The branch for \<^verbatim>\<open>'widget'\<close>, which also hides a parameter whose widget is
  \<^verbatim>\<open>'null'\<close>; the branch for \<^verbatim>\<open>'options'\<close>:
  \<^verbatim>\<open>metadata['options']['value'].split(" = ")[-1].replace("\"", "").split("|")\<close>; and the
  branch for \<^verbatim>\<open>'as_blender_input_socket'\<close>, where a value equal to \<^verbatim>\<open>0.0\<close> makes the
  parameter not connectable.
\<close>

definition copy_widget :: "(string \<times> pyval) list \<Rightarrow> (string \<times> pyval) list \<Rightarrow>
   py_error + (string \<times> pyval) list" where
  "copy_widget metadata param_data =
     (if ''widget'' \<in> set (map fst metadata)
      then err_bind (meta_value metadata ''widget'')
             (\<lambda>v. let pd = dict_set ''widget'' v param_data
                  in Inr (if v = PStr ''null'' then dict_set ''hide_ui'' (PBool True) pd else pd))
      else Inr param_data)"

definition copy_options :: "(string \<times> pyval) list \<Rightarrow> (string \<times> pyval) list \<Rightarrow>
   py_error + (string \<times> pyval) list" where
  "copy_options metadata param_data =
     (if ''options'' \<in> set (map fst metadata)
      then err_bind (meta_value metadata ''options'')
             (\<lambda>v. case v of
                     PStr text \<Rightarrow>
                       Inr (dict_set ''options''
                              (PList (map PStr
                                 (py_split ''|''
                                    (py_replace [CHR 0x22] [] (last (py_split '' = '' text))))))
                              param_data)
                   | _ \<Rightarrow> Inl AttributeError)
      else Inr param_data)"

definition copy_socket :: "(string \<times> pyval) list \<Rightarrow> (string \<times> pyval) list \<Rightarrow>
   py_error + (string \<times> pyval) list" where
  "copy_socket metadata param_data =
     (if ''as_blender_input_socket'' \<in> set (map fst metadata)
      then err_bind (meta_value metadata ''as_blender_input_socket'')
             (\<lambda>v. Inr (dict_set ''connectable''
                          (PBool (\<not> (v = PNum 0 \<or> v = PBool False))) param_data))
      else Inr param_data)"

text \<open>
  The dictionary \<^verbatim>\<open>param_data\<close> of one parameter, from \<^verbatim>\<open>q.get_param_info(x)\<close>,
  with its keys in the order of assignment.
\<close>

definition osl_param_data :: "(string \<times> pyval) list \<Rightarrow> py_error + (string \<times> pyval) list" where
  "osl_param_data param =
     err_bind (case map_of param ''metadata'' of
                 None \<Rightarrow> Inr []
               | Some (PDict m) \<Rightarrow> Inr m
               | Some _ \<Rightarrow> Inl AttributeError)
       (\<lambda>metadata.
     err_bind (py_getitem param ''name'') (\<lambda>name.
     err_bind (py_getitem param ''type'') (\<lambda>type.
     err_bind (py_getitem param ''validdefault'') (\<lambda>validdefault.
       (let pd0 = [(''name'', name), (''type'', type), (''connectable'', PBool True),
                   (''hide_ui'', PBool (validdefault = PBool False))];
            pd1 = (case map_of param ''default'' of
                     None \<Rightarrow> pd0
                   | Some v \<Rightarrow> dict_set ''default'' v pd0)
        in err_bind (copy_meta ''label'' metadata pd1) (\<lambda>pd2.
           err_bind (copy_widget metadata pd2) (\<lambda>pd3.
           err_bind (copy_meta ''min'' metadata pd3) (\<lambda>pd4.
           err_bind (copy_meta ''max'' metadata pd4) (\<lambda>pd5.
           err_bind (copy_meta ''softmin'' metadata pd5) (\<lambda>pd6.
           err_bind (copy_meta ''softmax'' metadata pd6) (\<lambda>pd7.
           err_bind (copy_meta ''help'' metadata pd7) (\<lambda>pd8.
           err_bind (copy_options metadata pd8) (\<lambda>pd9.
             copy_socket metadata pd9)))))))))))))"

text \<open>
  The loop \<^verbatim>\<open>for x in range(0, num_of_params)\<close> over the parameters of the opened
  shader, collecting the inputs and the outputs.
\<close>

fun osl_params ::
  "(string \<times> pyval) list list \<Rightarrow> pyval list \<Rightarrow> pyval list \<Rightarrow> py_error + pyval list \<times> pyval list" where
  "osl_params [] inputs outputs = Inr (inputs, outputs)"
| "osl_params (param # params) inputs outputs =
     err_bind (osl_param_data param) (\<lambda>param_data.
     err_bind (py_getitem param ''isoutput'') (\<lambda>isoutput.
       if isoutput = PBool True
       then osl_params params inputs (outputs @ [PDict param_data])
       else osl_params params (inputs @ [PDict param_data]) outputs))"

text \<open>The dictionary \<^verbatim>\<open>d\<close> of one shader file, with its keys in the order of assignment.\<close>

definition osl_node :: "shader_data \<Rightarrow> string \<Rightarrow> py_error + pyval" where
  "osl_node q file =
     (let shader_meta = sq_metadata q
      in err_bind (if ''as_blender_node_name'' \<in> set (map fst shader_meta)
                   then meta_value shader_meta ''as_blender_node_name''
                   else Inr (PStr (sq_shader_name q))) (\<lambda>name.
         err_bind (if ''as_blender_category'' \<in> set (map fst shader_meta)
                   then meta_value shader_meta ''as_blender_category''
                   else Inr (PStr ''other'')) (\<lambda>category.
         err_bind (osl_params (sq_params q) [] []) (\<lambda>io.
           Inr (PDict [(''inputs'', PList (fst io)), (''outputs'', PList (snd io)),
                       (''name'', name), (''filename'', PStr (py_replace ''.oso'' [] file)),
                       (''category'', category)])))))"

subsection \<open>read\_osl\_shaders\<close>

text \<open>The loop over the files of one shader directory.\<close>

fun osl_files ::
  "osl_env \<Rightarrow> string \<Rightarrow> string list \<Rightarrow> osl_state \<Rightarrow> pyval list \<Rightarrow>
   osl_state \<times> (py_error + pyval list)" where
  "osl_files env shader_dir [] st nodes = (st, Inr nodes)"
| "osl_files env shader_dir (file # files) st nodes =
     (if suffix ''.oso'' file
      then (let st1 = logger ''DEBUG'' (''[appleseed] Reading '' @ file @ ''...'') st;
                filename = os_join env shader_dir file;
                st2 = st1\<lparr>opened_files := opened_files st1 @ [filename]\<rparr>
            in case osl_node (shader_query env filename) file of
                 Inl err \<Rightarrow> (st2, Inl err)
               | Inr d \<Rightarrow> osl_files env shader_dir files st2 (nodes @ [d]))
      else osl_files env shader_dir files st nodes)"

text \<open>The loop \<^verbatim>\<open>for shader_dir in shader_directories\<close>.\<close>

fun osl_dirs ::
  "osl_env \<Rightarrow> string list \<Rightarrow> osl_state \<Rightarrow> pyval list \<Rightarrow> osl_state \<times> (py_error + pyval list)" where
  "osl_dirs env [] st nodes = (st, Inr nodes)"
| "osl_dirs env (shader_dir # dirs) st nodes =
     (if os_isdir env shader_dir
      then (let st1 = logger ''DEBUG''
                        (''[appleseed] Searching '' @ shader_dir @ '' for OSO files...'') st
            in case osl_files env shader_dir (os_listdir env shader_dir) st1 nodes of
                 (st2, Inl err) \<Rightarrow> (st2, Inl err)
               | (st2, Inr nodes') \<Rightarrow> osl_dirs env dirs st2 nodes')
      else osl_dirs env dirs st nodes)"

text \<open>
  \<^verbatim>\<open>read_osl_shaders()\<close>. The result is \<open>None\<close> when the search for the \<^verbatim>\<open>bin\<close>
  directory does not end; otherwise it is the state the call leaves together with the
  list of nodes or the exception raised.
\<close>

definition read_osl_shaders ::
  "osl_env \<Rightarrow> osl_state \<Rightarrow> (osl_state \<times> (py_error + pyval list)) option" where
  "read_osl_shaders env st =
     (let nodes = []
      in if get_appleseed_bin_dir env = []
         then Some (logger ''WARNING''
                      (''[appleseed] WARNING: Path to appleseed's binary directory not set: '' @
                       ''rendering and OSL features will not be available.'') st,
                    Inr nodes)
         else (case get_osl_search_paths env of
                 None \<Rightarrow> None
               | Some (tool_dir, shader_directories) \<Rightarrow>
                   (let st1 = logger ''DEBUG'' ''[appleseed] Parsing OSL shaders...'' st
                    in case osl_dirs env shader_directories st1 nodes of
                         (st2, Inl err) \<Rightarrow> Some (st2, Inl err)
                       | (st2, Inr nodes') \<Rightarrow>
                           Some (logger ''DEBUG'' ''[appleseed] OSL parsing complete.'' st2,
                                 Inr nodes'))))"

section \<open>Scene export utilities (util.py)\<close>

subsection \<open>calc\_fov\<close>

text \<open>
  \<^verbatim>\<open>
  def calc_fov(camera_ob, width, height):
      camera_angle = degrees(camera_ob.data.angle)
      if width < height:
          length = 18.0 / tan(camera_ob.data.angle / 2)
          camera_angle = 2 * atan(18.0 * width / height / length)
          camera_angle = degrees(camera_angle)
      return camera_angle
  \<close>
  Floats are reals. A division by a zero float raises ZeroDivisionError.
\<close>

record camera =
  angle :: real

definition degrees :: "real \<Rightarrow> real" where
  "degrees x = x * 180 / pi"

definition calc_fov :: "camera \<Rightarrow> real \<Rightarrow> real \<Rightarrow> py_error + real" where
  "calc_fov camera_ob width height =
     (let camera_angle = degrees (angle camera_ob)
      in if width < height
         then (if tan (angle camera_ob / 2) = 0 then Inl ZeroDivisionError
               else (let length = 18 / tan (angle camera_ob / 2)
                     in if height = 0 \<or> length = 0 then Inl ZeroDivisionError
                        else Inr (degrees (2 * arctan (18 * width / height / length)))))
         else Inr camera_angle)"

section \<open>Object translators (translators/object.py)\<close>

text \<open>
  The renderer's transform sequence holds at most one transform per time;
  \<^verbatim>\<open>set_transform(time, xform)\<close> stores \<open>xform\<close> at \<open>time\<close>.
\<close>

type_synonym transform_sequence = "real \<rightharpoonup> matrix"

definition set_transform :: "real \<Rightarrow> matrix \<Rightarrow> transform_sequence \<Rightarrow> transform_sequence" where
  "set_transform time xform xform_seq = xform_seq(time \<mapsto> xform)"

text \<open>
  The renderer's assembly: its nested assemblies and its assembly instances, by name.
  A handle to an assembly instance is its name in the assembly.
\<close>

record assembly_instance =
  inst_assembly_name :: string
  inst_xform_seq :: transform_sequence

record nested_assembly =
  assembly_model :: string
  assembly_filename :: string

record assembly =
  assemblies :: "string \<rightharpoonup> nested_assembly"
  assembly_instances :: "string \<rightharpoonup> assembly_instance"

text \<open>The host object a translator refers to, as far as the translators read it.\<close>

record host_object =
  matrix_world :: matrix

text \<open>
  \<^verbatim>\<open>ObjectTranslator\<close>. The base class \<^verbatim>\<open>Translator\<close> is not part of the sources at
  hand: what it contributes is the host object reference \<^verbatim>\<open>_bl_obj\<close> and the name
  \<^verbatim>\<open>appleseed_name\<close>, which are fields here, and the method \<^verbatim>\<open>_convert_matrix\<close>, which
  is the parameter \<open>convert_matrix\<close> of every function that calls it.
\<close>

record object_translator =
  bl_obj :: host_object
  appleseed_name :: string
  xform_seq :: transform_sequence
  num_instances :: int

definition ObjectTranslator_init :: "host_object \<Rightarrow> string \<Rightarrow> object_translator" where
  "ObjectTranslator_init obj name =
     \<lparr>bl_obj = obj, appleseed_name = name, xform_seq = Map.empty, num_instances = 1\<rparr>"

definition assembly_name :: "'a object_translator_scheme \<Rightarrow> string" where
  "assembly_name self = appleseed_name self @ ''_ass''"

definition add_instance :: "'a object_translator_scheme \<Rightarrow> 'a object_translator_scheme" where
  "add_instance self = self\<lparr>num_instances := num_instances self + 1\<rparr>"

text \<open>
  \<^verbatim>\<open>
  def set_transform_key(self, time, key_times):
      self._xform_seq.set_transform(time, self._convert_matrix(self.bl_obj.matrix_world))
  \<close>
  A method is a function on the translator and the renderer assembly, the state this
  module works on.
\<close>

definition set_transform_key ::
  "(matrix \<Rightarrow> matrix) \<Rightarrow> real \<Rightarrow> real list \<Rightarrow> 'a object_translator_scheme \<times> assembly \<Rightarrow>
   'a object_translator_scheme \<times> assembly" where
  "set_transform_key convert_matrix time key_times st =
     (case st of (self, asm) \<Rightarrow>
        (self\<lparr>xform_seq := set_transform time (convert_matrix (matrix_world (bl_obj self)))
                               (xform_seq self)\<rparr>, asm))"

text \<open>
  \<^verbatim>\<open>InstanceTranslator\<close>. The attribute \<^verbatim>\<open>__ass_inst\<close> is assigned in
  \<^verbatim>\<open>flush_entities\<close> only: until then the object has no such attribute (\<open>None\<close>), and
  reading it raises AttributeError. \<open>master_name\<close> is the \<^verbatim>\<open>appleseed_name\<close> of the
  master translator.
\<close>

record instance_translator = object_translator +
  master_name :: string
  ass_inst :: "string option"

definition InstanceTranslator_init :: "host_object \<Rightarrow> string \<Rightarrow> string \<Rightarrow> instance_translator" where
  "InstanceTranslator_init obj name master =
     \<lparr>bl_obj = obj, appleseed_name = name, xform_seq = Map.empty, num_instances = 1,
      master_name = master, ass_inst = None\<rparr>"

definition InstanceTranslator_create_entities ::
  "(matrix \<Rightarrow> matrix) \<Rightarrow> instance_translator \<times> assembly \<Rightarrow> instance_translator \<times> assembly" where
  "InstanceTranslator_create_entities convert_matrix st =
     (case st of (self, asm) \<Rightarrow>
        (self\<lparr>xform_seq := set_transform 0 (convert_matrix (matrix_world (bl_obj self)))
                               (xform_seq self)\<rparr>, asm))"

text \<open>
  \<^verbatim>\<open>flush_entities\<close>: the sequence is optimized (\<open>optimize\<close> is the renderer's), copied
  into a new assembly instance named after the translator, the instance is inserted into
  the assembly, and the handle to the inserted instance is kept.
\<close>

definition InstanceTranslator_flush_entities ::
  "(transform_sequence \<Rightarrow> transform_sequence) \<Rightarrow> instance_translator \<times> assembly \<Rightarrow>
   instance_translator \<times> assembly" where
  "InstanceTranslator_flush_entities optimize st =
     (case st of (self, asm) \<Rightarrow>
        (let xs = optimize (xform_seq self);
             assembly_instance_name = appleseed_name self @ ''_ass_inst'';
             inst = \<lparr>inst_assembly_name = master_name self @ ''_ass'', inst_xform_seq = xs\<rparr>
         in (self\<lparr>xform_seq := xs, ass_inst := Some assembly_instance_name\<rparr>,
             asm\<lparr>assembly_instances := (assembly_instances asm)(assembly_instance_name \<mapsto> inst)\<rparr>)))"

text \<open>
  \<^verbatim>\<open>
  def update(self, obj):
      self.__ass_inst.transform_sequence().set_transform(0.0, self._convert_matrix(obj.matrix_world))
  \<close>
  The common body of \<^verbatim>\<open>InstanceTranslator.update\<close> and \<^verbatim>\<open>ArchiveTranslator.update\<close>,
  given the handle attribute as it is read from the translator. A handle always names an
  instance of the assembly it was inserted into; where it names none, the state is left
  as it is.
\<close>

definition update_ass_inst ::
  "(matrix \<Rightarrow> matrix) \<Rightarrow> host_object \<Rightarrow> string option \<Rightarrow> assembly \<Rightarrow> py_error + assembly" where
  "update_ass_inst convert_matrix obj handle asm =
     (case handle of
        None \<Rightarrow> Inl AttributeError
      | Some name \<Rightarrow>
          (case assembly_instances asm name of
             None \<Rightarrow> Inr asm
           | Some inst \<Rightarrow>
               Inr (asm\<lparr>assembly_instances := (assembly_instances asm)
                          (name \<mapsto> inst\<lparr>inst_xform_seq :=
                             set_transform 0 (convert_matrix (matrix_world obj))
                               (inst_xform_seq inst)\<rparr>)\<rparr>)))"

definition InstanceTranslator_update ::
  "(matrix \<Rightarrow> matrix) \<Rightarrow> host_object \<Rightarrow> instance_translator \<times> assembly \<Rightarrow>
   (py_error + unit) \<times> instance_translator \<times> assembly" where
  "InstanceTranslator_update convert_matrix obj st =
     (case st of (self, asm) \<Rightarrow>
        (case update_ass_inst convert_matrix obj (ass_inst self) asm of
           Inl err \<Rightarrow> (Inl err, self, asm)
         | Inr asm' \<Rightarrow> (Inr (), self, asm')))"

text \<open>
  \<^verbatim>\<open>ArchiveTranslator\<close>. \<open>process_path\<close> is the asset handler's. The attributes
  \<^verbatim>\<open>__ass\<close> and \<^verbatim>\<open>__ass_inst\<close> are assigned in \<^verbatim>\<open>flush_entities\<close> only.
\<close>

record archive_translator = object_translator +
  archive_path :: string
  archive_ass :: "string option"
  archive_ass_inst :: "string option"

definition ArchiveTranslator_init :: "host_object \<Rightarrow> string \<Rightarrow> string \<Rightarrow> archive_translator" where
  "ArchiveTranslator_init obj name path =
     \<lparr>bl_obj = obj, appleseed_name = name, xform_seq = Map.empty, num_instances = 1,
      archive_path = path, archive_ass = None, archive_ass_inst = None\<rparr>"

definition ArchiveTranslator_create_entities ::
  "(matrix \<Rightarrow> matrix) \<Rightarrow> archive_translator \<times> assembly \<Rightarrow> archive_translator \<times> assembly" where
  "ArchiveTranslator_create_entities convert_matrix st =
     (case st of (self, asm) \<Rightarrow>
        (self\<lparr>xform_seq := set_transform 0 (convert_matrix (matrix_world (bl_obj self)))
                               (xform_seq self)\<rparr>, asm))"

definition ArchiveTranslator_flush_entities ::
  "(string \<Rightarrow> string) \<Rightarrow> archive_translator \<times> assembly \<Rightarrow> archive_translator \<times> assembly" where
  "ArchiveTranslator_flush_entities process_path st =
     (case st of (self, asm) \<Rightarrow>
        (let ass_name = appleseed_name self @ ''_ass'';
             file_path = process_path (archive_path self);
             ass = \<lparr>assembly_model = ''archive_assembly'', assembly_filename = file_path\<rparr>;
             ass_inst_name = appleseed_name self @ ''_ass_inst'';
             inst = \<lparr>inst_assembly_name = ass_name, inst_xform_seq = xform_seq self\<rparr>
         in (self\<lparr>archive_ass := Some ass_name, archive_ass_inst := Some ass_inst_name\<rparr>,
             asm\<lparr>assemblies := (assemblies asm)(ass_name \<mapsto> ass),
                 assembly_instances := (assembly_instances asm)(ass_inst_name \<mapsto> inst)\<rparr>)))"

definition ArchiveTranslator_update ::
  "(matrix \<Rightarrow> matrix) \<Rightarrow> host_object \<Rightarrow> archive_translator \<times> assembly \<Rightarrow>
   (py_error + unit) \<times> archive_translator \<times> assembly" where
  "ArchiveTranslator_update convert_matrix obj st =
     (case st of (self, asm) \<Rightarrow>
        (case update_ass_inst convert_matrix obj (archive_ass_inst self) asm of
           Inl err \<Rightarrow> (Inl err, self, asm)
         | Inr asm' \<Rightarrow> (Inr (), self, asm')))"

text \<open>
  The states a translator can be in before \<^verbatim>\<open>flush_entities\<close> has been invoked: the
  state the constructor leaves, and every state reached from there by the other methods.
\<close>

inductive instance_unflushed :: "instance_translator \<times> assembly \<Rightarrow> bool" where
  init: "instance_unflushed (InstanceTranslator_init obj name master, asm)"
| add: "instance_unflushed (self, asm) \<Longrightarrow> instance_unflushed (add_instance self, asm)"
| key: "instance_unflushed st \<Longrightarrow> instance_unflushed (set_transform_key cm time key_times st)"
| create: "instance_unflushed st \<Longrightarrow> instance_unflushed (InstanceTranslator_create_entities cm st)"

inductive archive_unflushed :: "archive_translator \<times> assembly \<Rightarrow> bool" where
  init: "archive_unflushed (ArchiveTranslator_init obj name path, asm)"
| add: "archive_unflushed (self, asm) \<Longrightarrow> archive_unflushed (add_instance self, asm)"
| key: "archive_unflushed st \<Longrightarrow> archive_unflushed (set_transform_key cm time key_times st)"
| create: "archive_unflushed st \<Longrightarrow> archive_unflushed (ArchiveTranslator_create_entities cm st)"

section \<open>Relations between the state before and after a call\<close>

text \<open>
  Three relations between the state before and after a call: the scene differs at most in
  its time (current frame and sub-frame); the scene differs at most in its sub-frame; and
  the object differs at most in its transient dupli list and in the record of the
  \<^verbatim>\<open>dupli_list_create\<close> calls made on it.
\<close>

definition only_time_moved :: "scene \<Rightarrow> scene \<Rightarrow> bool" where
  "only_time_moved scn scn' \<longleftrightarrow>
     scn' = scn\<lparr>frame_current := frame_current scn', frame_subframe := frame_subframe scn'\<rparr>"

definition only_subframe_moved :: "scene \<Rightarrow> scene \<Rightarrow> bool" where
  "only_subframe_moved scn scn' \<longleftrightarrow> scn' = scn\<lparr>frame_subframe := frame_subframe scn'\<rparr>"

definition only_duplis_touched :: "bl_object \<Rightarrow> bl_object \<Rightarrow> bool" where
  "only_duplis_touched ob ob' \<longleftrightarrow>
     ob' = ob\<lparr>dupli_list := dupli_list ob', dupli_calls := dupli_calls ob'\<rparr>"

section \<open>Example scenes\<close>

text \<open>Concrete inputs on which the functions are run below.\<close>

definition ident4 :: matrix where
  "ident4 = [[1, 0, 0, 0], [0, 1, 0, 0], [0, 0, 1, 0], [0, 0, 0, 1]]"

definition ex_particle_matrix :: matrix where
  "ex_particle_matrix = [[2, 0, 0, 1], [0, 2, 0, 2], [0, 0, 2, 3], [0, 0, 0, 1]]"

definition shift4 :: matrix where
  "shift4 = [[1, 0, 0, 5], [0, 1, 0, 0], [0, 0, 1, 0], [0, 0, 0, 1]]"

text \<open>
  A scene at frame 10 with motion blur and object blur switched on; the shutter opens and
  closes at the sub-frames given.
\<close>

definition ex_scene :: "real \<Rightarrow> real \<Rightarrow> scene" where
  "ex_scene s_open s_close =
     \<lparr>frame_current = 10, frame_subframe = 0, scene_enable_motion_blur = True,
      enable_object_blur = True, enable_deformation_blur = False,
      shutter_open = s_open, shutter_close = s_close, object_scale = (\<lambda>t ob. (1, 1, 1))\<rparr>"

text \<open>
  Particle systems rendered as objects: an emitter with the alive particle 0 at
  \<open>(1, 2, 3)\<close> of size 2, an emitter with no particle, and a hair system with the
  particle 0.
\<close>

definition ex_emitter :: particle_system where
  "ex_emitter =
     \<lparr>psys_type = ''EMITTER'', render_type = ''OBJECT'', particles = (\<lambda>t. [0]),
      alive_state = (\<lambda>t p. ''ALIVE''), particle_size = (\<lambda>t p. 2),
      particle_location = (\<lambda>t p. (1, 2, 3))\<rparr>"

definition ex_emitter_empty :: particle_system where
  "ex_emitter_empty =
     \<lparr>psys_type = ''EMITTER'', render_type = ''OBJECT'', particles = (\<lambda>t. []),
      alive_state = (\<lambda>t p. ''ALIVE''), particle_size = (\<lambda>t p. 2),
      particle_location = (\<lambda>t p. (1, 2, 3))\<rparr>"

definition ex_hair :: particle_system where
  "ex_hair =
     \<lparr>psys_type = ''HAIR'', render_type = ''OBJECT'', particles = (\<lambda>t. [0]),
      alive_state = (\<lambda>t p. ''ALIVE''), particle_size = (\<lambda>t p. 2),
      particle_location = (\<lambda>t p. (1, 2, 3))\<rparr>"

definition ex_modifier :: "particle_system \<Rightarrow> modifier" where
  "ex_modifier psys = \<lparr>modifier_type = ''PARTICLE_SYSTEM'', show_render = True, modifier_psys = psys\<rparr>"

text \<open>
  An object with object motion blur switched on or off, the given modifiers, and the
  given dupli lists as the host generates them.
\<close>

definition ex_object ::
  "bool \<Rightarrow> modifier list \<Rightarrow> (string \<Rightarrow> scene_time \<Rightarrow> dupli list) \<Rightarrow> bl_object" where
  "ex_object blur mods source =
     \<lparr>ob_enable_motion_blur = blur, motion_blur_type = ''object'', has_modifiers = True,
      modifiers = mods, dupli_source = source, dupli_list = [], dupli_calls = []\<rparr>"

text \<open>
  Dupli lists: always the one dupli of object 7; none at all; two duplis (of the objects
  7 and 8) at frame 10, sub-frame 0, but only one at any other time; and one dupli at
  frame 10, sub-frame 0, but two at any other time.
\<close>

definition ex_one_dupli :: "string \<Rightarrow> scene_time \<Rightarrow> dupli list" where
  "ex_one_dupli settings t = [\<lparr>dupli_object = 7, dupli_matrix = ident4\<rparr>]"

definition ex_no_dupli :: "string \<Rightarrow> scene_time \<Rightarrow> dupli list" where
  "ex_no_dupli settings t = []"

definition ex_shrinking_duplis :: "string \<Rightarrow> scene_time \<Rightarrow> dupli list" where
  "ex_shrinking_duplis settings t =
     (if t = (10, 0)
      then [\<lparr>dupli_object = 7, dupli_matrix = ident4\<rparr>, \<lparr>dupli_object = 8, dupli_matrix = ident4\<rparr>]
      else [\<lparr>dupli_object = 7, dupli_matrix = shift4\<rparr>])"

definition ex_growing_duplis :: "string \<Rightarrow> scene_time \<Rightarrow> dupli list" where
  "ex_growing_duplis settings t =
     (if t = (10, 0)
      then [\<lparr>dupli_object = 7, dupli_matrix = ident4\<rparr>]
      else [\<lparr>dupli_object = 7, dupli_matrix = shift4\<rparr>, \<lparr>dupli_object = 8, dupli_matrix = shift4\<rparr>])"

text \<open>
  A host object, an empty assembly, and an environment with the given preference, in
  which a path is its own real path, base name and directory name, every path is a
  directory holding the one file \<^verbatim>\<open>a.oso\<close>, and every shader file describes a shader
  \<open>a\<close> with no metadata and no parameter.
\<close>

definition ex_host_object :: host_object where
  "ex_host_object = \<lparr>matrix_world = ident4\<rparr>"

definition ex_assembly :: assembly where
  "ex_assembly = \<lparr>assemblies = Map.empty, assembly_instances = Map.empty\<rparr>"

definition ex_env :: "string \<Rightarrow> osl_env" where
  "ex_env bin_dir =
     \<lparr>appleseed_binary_directory = bin_dir, bpy_abspath = id, os_realpath = id,
      os_basename = id, os_dirname = id, os_join = (\<lambda>a b. a @ ''/'' @ b),
      os_isdir = (\<lambda>d. True), os_listdir = (\<lambda>d. [''a.oso'']),
      shader_query = (\<lambda>f. \<lparr>sq_metadata = [], sq_shader_name = ''a'', sq_params = []\<rparr>)\<rparr>"

definition ex_osl_state :: osl_state where
  "ex_osl_state = \<lparr>log_records = [], opened_files = []\<rparr>"

section \<open>Properties of filter\_params\<close>

lemma filter_params_step_in [simp]:
  "p \<in> set acc \<Longrightarrow> filter_params_step p acc = acc"
  by (simp add: filter_params_step_def)

lemma filter_params_step_notin [simp]:
  "p \<notin> set acc \<Longrightarrow> filter_params_step p acc = acc @ [p]"
  by (simp add: filter_params_step_def)

lemma set_filter_params_step [simp]:
  "set (filter_params_step p acc) = insert p (set acc)"
  by (cases "p \<in> set acc") auto

lemma fold_filter_params_step_distinct:
  "distinct acc \<Longrightarrow> distinct (fold filter_params_step xs acc)"
proof (induction xs arbitrary: acc)
  case Nil
  then show ?case by simp
next
  case (Cons x xs)
  have "distinct (filter_params_step x acc)"
    using Cons.prems by (cases "x \<in> set acc") simp_all
  then show ?case using Cons.IH by simp
qed

lemma fold_filter_params_step_set:
  "set (fold filter_params_step xs acc) = set acc \<union> set xs"
  by (induction xs arbitrary: acc) auto

lemma fold_filter_params_step_fresh:
  "distinct (acc @ ys) \<Longrightarrow> fold filter_params_step ys acc = acc @ ys"
  by (induction ys arbitrary: acc) auto

lemma filter_params_snoc:
  "filter_params (xs @ [x]) = filter_params_step x (filter_params xs)"
  by (simp add: filter_params_def)

lemma set_filter_params: "set (filter_params xs) = set xs"
  by (simp add: filter_params_def fold_filter_params_step_set)

lemma distinct_filter_params: "distinct (filter_params xs)"
  by (simp add: filter_params_def fold_filter_params_step_distinct)

lemma first_occurrences_snoc:
  "first_occurrences (xs @ [x]) =
     first_occurrences xs @ (if x \<notin> set xs then [x] else [])"
proof -
  have f: "filter (\<lambda>i. (xs @ [x]) ! i \<notin> set (take i (xs @ [x]))) [0..<length xs] =
           filter (\<lambda>i. xs ! i \<notin> set (take i xs)) [0..<length xs]"
    by (rule filter_cong) (simp_all add: nth_append)
  have m: "map (\<lambda>i. (xs @ [x]) ! i) (filter (\<lambda>i. xs ! i \<notin> set (take i xs)) [0..<length xs]) =
           map (\<lambda>i. xs ! i) (filter (\<lambda>i. xs ! i \<notin> set (take i xs)) [0..<length xs])"
    by (rule map_cong) (simp_all add: nth_append)
  show ?thesis
    unfolding first_occurrences_def using f m by simp
qed

lemma filter_params_first_occurrences: "filter_params xs = first_occurrences xs"
proof (induction xs rule: rev_induct)
  case Nil
  show ?case by (simp add: filter_params_def first_occurrences_def)
next
  case (snoc x xs)
  show ?case
  proof (cases "x \<in> set xs")
    case True
    then have "filter_params (xs @ [x]) = filter_params xs"
      by (simp add: filter_params_snoc set_filter_params)
    with True snoc show ?thesis by (simp add: first_occurrences_snoc)
  next
    case False
    then have "filter_params (xs @ [x]) = filter_params xs @ [x]"
      by (simp add: filter_params_snoc set_filter_params)
    with False snoc show ?thesis by (simp add: first_occurrences_snoc)
  qed
qed

lemma subseq_filter_params: "subseq (filter_params xs) xs"
proof (induction xs rule: rev_induct)
  case Nil
  show ?case by (simp add: filter_params_def)
next
  case (snoc x xs)
  show ?case
  proof (cases "x \<in> set xs")
    case True
    then have "filter_params (xs @ [x]) = filter_params xs"
      by (simp add: filter_params_snoc set_filter_params)
    then show ?thesis using snoc by (simp add: subseq_rev_drop_many)
  next
    case False
    then have "filter_params (xs @ [x]) = filter_params xs @ [x]"
      by (simp add: filter_params_snoc set_filter_params)
    then show ?thesis using snoc by (simp add: list_emb_append_mono)
  qed
qed

lemma filter_params_distinct_id: "distinct ys \<Longrightarrow> filter_params ys = ys"
  using fold_filter_params_step_fresh [of "[]" ys] by (simp add: filter_params_def)

text \<open>
  Claim C10. For every input list, \<open>filter_params\<close> returns the elements of the input
  with duplicates removed, keeping the first occurrence of each element in input order:
  the result is the list of first occurrences, it is a subsequence of the input with the
  same elements, it has no duplicates, and applying \<open>filter_params\<close> to its own result
  changes nothing.
\<close>

theorem filter_params_dedup_idempotent:
  "filter_params p = first_occurrences p \<and>
   subseq (filter_params p) p \<and>
   set (filter_params p) = set p \<and>
   distinct (filter_params p) \<and>
   filter_params (filter_params p) = filter_params p"
  using filter_params_first_occurrences [of p] subseq_filter_params [of p]
    set_filter_params [of p] distinct_filter_params [of p]
    filter_params_distinct_id [OF distinct_filter_params [of p]]
  by simp

section \<open>What a call may change\<close>

text \<open>
  Facts about the host's \<open>frame_set\<close>, about the relations \<open>only_time_moved\<close>,
  \<open>only_subframe_moved\<close> and \<open>only_duplis_touched\<close>, and about what the host calls leave
  alone.
\<close>

lemma split_frame_of_int [simp]: "split_frame (real_of_int f) = (f, 0)"
  by (simp add: split_frame_def)

lemma split_frame_within:
  "0 \<le> real_of_int f + x \<Longrightarrow> real_of_int f + x < real_of_int f + 1 \<Longrightarrow> 0 \<le> x \<Longrightarrow>
   split_frame (real_of_int f + x) = (f, x)"
proof -
  assume a: "0 \<le> real_of_int f + x" and b: "real_of_int f + x < real_of_int f + 1" and c: "0 \<le> x"
  have "\<lfloor>real_of_int f + x\<rfloor> = f" using b c by (intro floor_unique) simp_all
  with a show ?thesis by (simp add: split_frame_def)
qed

lemma scene_now_frame_set [simp]:
  "scene_now (frame_set f x scn) = split_frame (real_of_int f + x)"
  by (simp add: scene_now_def frame_set_def Let_def)

lemma frame_set_plain: "frame_set f 0 scn = scn\<lparr>frame_current := f, frame_subframe := 0\<rparr>"
  by (simp add: frame_set_def)

lemma only_time_moved_refl [simp]: "only_time_moved scn scn"
  by (simp add: only_time_moved_def)

lemma only_time_moved_frame_set [simp]:
  "only_time_moved scn scn' \<Longrightarrow> only_time_moved scn (frame_set f x scn')"
  unfolding only_time_moved_def frame_set_def Let_def
  by (cases scn, cases scn') simp

lemma only_time_moved_fields:
  "only_time_moved scn scn' \<Longrightarrow>
   shutter_open scn' = shutter_open scn \<and> shutter_close scn' = shutter_close scn \<and>
   scene_enable_motion_blur scn' = scene_enable_motion_blur scn \<and>
   enable_object_blur scn' = enable_object_blur scn \<and> object_scale scn' = object_scale scn"
  unfolding only_time_moved_def by (cases scn, cases scn') simp

lemma only_subframe_moved_refl [simp]: "only_subframe_moved scn scn"
  by (simp add: only_subframe_moved_def)

lemma only_subframe_moved_update [simp]:
  "only_subframe_moved scn (scn\<lparr>frame_subframe := x\<rparr>)"
  by (simp add: only_subframe_moved_def)

lemma only_subframe_moved_frame:
  "only_subframe_moved scn scn' \<Longrightarrow> frame_current scn' = frame_current scn"
  unfolding only_subframe_moved_def by (cases scn, cases scn') simp

lemma only_subframe_moved_fields:
  "only_subframe_moved scn scn' \<Longrightarrow>
   frame_current scn' = frame_current scn \<and> shutter_open scn' = shutter_open scn \<and>
   shutter_close scn' = shutter_close scn \<and>
   scene_enable_motion_blur scn' = scene_enable_motion_blur scn \<and>
   enable_object_blur scn' = enable_object_blur scn \<and> object_scale scn' = object_scale scn"
  unfolding only_subframe_moved_def by (cases scn, cases scn') simp

lemma only_duplis_touched_refl [simp]: "only_duplis_touched ob ob"
  by (simp add: only_duplis_touched_def)

lemma only_duplis_touched_create [simp]:
  "only_duplis_touched ob ob' \<Longrightarrow> only_duplis_touched ob (dupli_list_create scn s ob')"
  unfolding only_duplis_touched_def dupli_list_create_def
  by (cases ob, cases ob') simp

lemma only_duplis_touched_clear [simp]:
  "only_duplis_touched ob ob' \<Longrightarrow> only_duplis_touched ob (dupli_list_clear ob')"
  unfolding only_duplis_touched_def dupli_list_clear_def
  by (cases ob, cases ob') simp

lemma only_duplis_touched_fields:
  "only_duplis_touched ob ob' \<Longrightarrow>
   ob_enable_motion_blur ob' = ob_enable_motion_blur ob \<and>
   motion_blur_type ob' = motion_blur_type ob \<and> has_modifiers ob' = has_modifiers ob \<and>
   modifiers ob' = modifiers ob \<and> dupli_source ob' = dupli_source ob"
  unfolding only_duplis_touched_def by (cases ob, cases ob') simp

lemma ob_mblur_enabled_preserved:
  "only_duplis_touched ob ob' \<Longrightarrow> only_subframe_moved scn scn' \<Longrightarrow>
   ob_mblur_enabled ob' scn' = ob_mblur_enabled ob scn"
  using only_subframe_moved_fields [of scn scn'] only_duplis_touched_fields [of ob ob']
  by (simp add: ob_mblur_enabled_def)

lemma dupli_list_create_list [simp]:
  "dupli_list (dupli_list_create scn s ob) = dupli_source ob s (scene_now scn)"
  by (simp add: dupli_list_create_def)

lemma ob_mblur_enabled_create [simp]:
  "ob_mblur_enabled (dupli_list_create scn' s ob) scn = ob_mblur_enabled ob scn"
  by (simp add: ob_mblur_enabled_def dupli_list_create_def)

lemma modifiers_create [simp]:
  "modifiers (dupli_list_create scn s ob) = modifiers ob"
  by (simp add: dupli_list_create_def)

lemma psys_particles_cong:
  "scene_now a = scene_now b \<Longrightarrow> psys_particles a psys = psys_particles b psys"
  by (simp add: psys_particles_def)

lemma shutter_open_time:
  "only_subframe_moved scn scn' \<Longrightarrow>
   scene_now (frame_set (frame_current scn') (shutter_open scn') scn') =
   scene_now (frame_set (frame_current scn) (shutter_open scn) scn)"
  using only_subframe_moved_fields [of scn scn'] by simp

lemma shutter_frames_frame_set [simp]:
  "shutter_frames ord (frame_set f x scn) = shutter_frames ord scn"
  by (simp add: shutter_frames_def frame_set_def Let_def)

lemma length_shutter_frames:
  "length (shutter_frames ord scn) = (if shutter_open scn = shutter_close scn then 1 else 2)"
  by (simp add: shutter_frames_def)

section \<open>Properties of the dictionaries\<close>

text \<open>
  The entries, the keys and the size of a dictionary built by \<open>dict_set\<close>.
\<close>

lemma dict_set_nonempty [simp]: "dict_set k v d \<noteq> []"
  by (cases d) (auto split: if_splits)

lemma fold_dict_set_nonempty:
  "d \<noteq> [] \<Longrightarrow> fold (\<lambda>kv d. dict_set (fst kv) (snd kv) d) ps d \<noteq> []"
  by (induction ps arbitrary: d) simp_all

lemma dict_of_pairs_empty_iff: "dict_of_pairs ps = [] \<longleftrightarrow> ps = []"
  by (cases ps) (simp_all add: dict_of_pairs_def fold_dict_set_nonempty)

lemma length_dict_set: "length (dict_set k v d) \<le> Suc (length d)"
  by (induction d) auto

lemma length_fold_dict_set:
  "length (fold (\<lambda>kv d. dict_set (fst kv) (snd kv) d) ps d) \<le> length d + length ps"
proof (induction ps arbitrary: d)
  case Nil
  show ?case by simp
next
  case (Cons p ps)
  have "length (fold (\<lambda>kv d. dict_set (fst kv) (snd kv) d) ps (dict_set (fst p) (snd p) d))
          \<le> length (dict_set (fst p) (snd p) d) + length ps"
    by (rule Cons.IH)
  also have "\<dots> \<le> Suc (length d) + length ps"
    using length_dict_set [of "fst p" "snd p" d] by simp
  finally show ?case by simp
qed

lemma length_dict_of_pairs: "length (dict_of_pairs ps) \<le> length ps"
  using length_fold_dict_set [of ps "[]"] by (simp add: dict_of_pairs_def)

lemma set_dict_set: "set (dict_set k v d) \<subseteq> insert (k, v) (set d)"
  by (induction d) (auto split: if_splits)

lemma set_fold_dict_set:
  "set (fold (\<lambda>kv d. dict_set (fst kv) (snd kv) d) ps d) \<subseteq> set d \<union> set ps"
proof (induction ps arbitrary: d)
  case Nil
  show ?case by simp
next
  case (Cons p ps)
  have "set (fold (\<lambda>kv d. dict_set (fst kv) (snd kv) d) ps (dict_set (fst p) (snd p) d))
          \<subseteq> set (dict_set (fst p) (snd p) d) \<union> set ps"
    by (rule Cons.IH)
  also have "\<dots> \<subseteq> insert p (set d) \<union> set ps"
    using set_dict_set [of "fst p" "snd p" d] by auto
  finally show ?case by auto
qed

lemma set_dict_of_pairs: "set (dict_of_pairs ps) \<subseteq> set ps"
  using set_fold_dict_set [of ps "[]"] by (simp add: dict_of_pairs_def)

lemma set_dict_update: "set (dict_update d other) \<subseteq> set d \<union> set other"
  using set_fold_dict_set [of other d] by (simp add: dict_update_def)

lemma map_fst_dict_set:
  "map fst (dict_set k v d) = (if k \<in> set (map fst d) then map fst d else map fst d @ [k])"
  by (induction d) (force simp: image_iff)+

lemma keys_dict_set: "fst ` set (dict_set k v d) = insert k (fst ` set d)"
proof -
  have "set (map fst (dict_set k v d)) = insert k (set (map fst d))"
    by (auto simp: map_fst_dict_set)
  then show ?thesis by simp
qed

lemma keys_fold_dict_set:
  "fst ` set (fold (\<lambda>kv d. dict_set (fst kv) (snd kv) d) ps d) = fst ` set d \<union> fst ` set ps"
proof (induction ps arbitrary: d)
  case Nil
  show ?case by simp
next
  case (Cons p ps)
  have "fst ` set (fold (\<lambda>kv d. dict_set (fst kv) (snd kv) d) ps (dict_set (fst p) (snd p) d)) =
        fst ` set (dict_set (fst p) (snd p) d) \<union> fst ` set ps"
    by (rule Cons.IH)
  then show ?case by (simp add: keys_dict_set)
qed

lemma keys_dict_of_pairs: "fst ` set (dict_of_pairs ps) = fst ` set ps"
  using keys_fold_dict_set [of ps "[]"] by (simp add: dict_of_pairs_def)

lemma fresh_dict_counts:
  "\<forall>e \<in> set (dict_of_pairs (map (\<lambda>p. (fst p, snd p, []::matrix list)) ps)). length (snd (snd e)) = 0"
  using set_dict_of_pairs [of "map (\<lambda>p. (fst p, snd p, []::matrix list)) ps"] by auto

section \<open>The frame after motion-blur sampling\<close>

lemma emitter_frames_scene:
  "only_time_moved scn scn' \<Longrightarrow>
   only_time_moved scn (snd (snd (emitter_frames fs fo psys i ni d scn')))"
  by (induction fs arbitrary: ni d scn') (simp_all add: Let_def)

lemma emitter_frames_length:
  "length (fst (emitter_frames fs fo psys i ni d scn)) = length d"
  by (induction fs arbitrary: ni d scn) (simp_all add: Let_def emitter_append_def)

lemma hair_append_length:
  "hair_append dl n d = Inr d' \<Longrightarrow> length d' = length d"
  by (induction d arbitrary: n d') (auto split: if_splits sum.splits)

lemma hair_frames_scene:
  "only_time_moved scn scn' \<Longrightarrow>
   only_time_moved scn (snd (snd (hair_frames fs fo i ni d ob scn')))"
  by (induction fs arbitrary: ni d ob scn') (simp_all add: Let_def split: sum.splits)

lemma hair_frames_object:
  "only_duplis_touched ob ob' \<Longrightarrow>
   only_duplis_touched ob (fst (snd (hair_frames fs fo i ni d ob' scn)))"
  by (induction fs arbitrary: ni d ob' scn) (simp_all add: Let_def split: sum.splits)

lemma sample_mblur_scene:
  "only_time_moved scn (snd (snd (sample_mblur ob scn dupli)))"
  by (simp add: sample_mblur_def Let_def split: sum.splits)

lemma sample_mblur_object:
  "only_duplis_touched ob (fst (snd (sample_mblur ob scn dupli)))"
  by (simp add: sample_mblur_def Let_def split: sum.splits)

lemma psys_mblur_emitter_scene:
  assumes "only_time_moved scn scn1"
  shows "only_time_moved scn
           (snd (snd (psys_mblur_emitter ord ob scn1 fo psys index parts)))"
proof -
  let ?ob1 = "dupli_list_create scn1 ''RENDER'' ob"
  let ?d = "dict_of_pairs (map (\<lambda>p. (fst p, snd p, []::matrix list)) (zip parts (map dupli_object (dupli_list ?ob1))))"
  let ?r = "emitter_frames (shutter_frames ord scn1) fo psys index index ?d scn1"
  obtain d' ni scn2 where r: "?r = (d', ni, scn2)" by (cases ?r) auto
  have "only_time_moved scn (snd (snd ?r))" using assms by (rule emitter_frames_scene)
  with r have "only_time_moved scn scn2" by simp
  with r show ?thesis by (simp add: psys_mblur_emitter_def Let_def)
qed

lemma psys_mblur_emitter_object:
  "only_duplis_touched ob
     (fst (snd (psys_mblur_emitter ord ob scn1 fo psys index parts)))"
  by (simp add: psys_mblur_emitter_def Let_def split: prod.splits)

lemma psys_mblur_hair_scene:
  assumes "only_time_moved scn scn1"
  shows "only_time_moved scn
           (snd (snd (psys_mblur_hair ord ob scn1 fo index start tot parts)))"
proof -
  let ?ob1 = "dupli_list_create scn1 ''RENDER'' ob"
  show ?thesis
  proof (cases "dupli_objects_at (dupli_list ?ob1) [start..<tot]")
    case (Inl e)
    with assms show ?thesis by (simp add: psys_mblur_hair_def Let_def)
  next
    case (Inr duplis)
    let ?d = "dict_of_pairs (map (\<lambda>p. (fst p, snd p, []::matrix list)) (zip parts duplis))"
    let ?r = "hair_frames (shutter_frames ord scn1) fo index index ?d
                (dupli_list_clear ?ob1) scn1"
    obtain res ob3 scn2 where r: "?r = (res, ob3, scn2)" by (cases ?r) auto
    have "only_time_moved scn (snd (snd ?r))" using assms by (rule hair_frames_scene)
    with r have "only_time_moved scn scn2" by simp
    with r Inr show ?thesis
      by (cases res) (auto simp: psys_mblur_hair_def Let_def)
  qed
qed

lemma psys_mblur_hair_object:
  "only_duplis_touched ob
     (fst (snd (psys_mblur_hair ord ob scn1 fo index start tot parts)))"
proof -
  let ?ob1 = "dupli_list_create scn1 ''RENDER'' ob"
  show ?thesis
  proof (cases "dupli_objects_at (dupli_list ?ob1) [start..<tot]")
    case (Inl e)
    then show ?thesis by (simp add: psys_mblur_hair_def Let_def)
  next
    case (Inr duplis)
    let ?d = "dict_of_pairs (map (\<lambda>p. (fst p, snd p, []::matrix list)) (zip parts duplis))"
    let ?r = "hair_frames (shutter_frames ord scn1) fo index index ?d
                (dupli_list_clear ?ob1) scn1"
    obtain res ob3 scn2 where r: "?r = (res, ob3, scn2)" by (cases ?r) auto
    have "only_duplis_touched ob (fst (snd ?r))" by (rule hair_frames_object) simp
    with r have "only_duplis_touched ob ob3" by simp
    with r Inr show ?thesis
      by (cases res) (auto simp: psys_mblur_hair_def Let_def)
  qed
qed

lemma sample_psys_mblur_scene:
  "only_time_moved scn (snd (snd (sample_psys_mblur ord ob scn psys index start current_total)))"
  by (simp add: sample_psys_mblur_def Let_def psys_mblur_emitter_scene psys_mblur_hair_scene)

lemma sample_psys_mblur_object:
  "only_duplis_touched ob (fst (snd (sample_psys_mblur ord ob scn psys index start current_total)))"
  by (simp add: sample_psys_mblur_def Let_def psys_mblur_emitter_object psys_mblur_hair_object)

lemma frame_set_after_move:
  "only_time_moved scn scn' \<Longrightarrow>
   frame_set (frame_current scn) 0 scn' = scn\<lparr>frame_subframe := 0\<rparr>"
  unfolding only_time_moved_def frame_set_plain by (cases scn, cases scn') simp

lemma sample_mblur_result_scene:
  assumes "fst (sample_mblur ob scn dupli) = Inr matrices"
  shows "snd (snd (sample_mblur ob scn dupli)) = scn\<lparr>frame_subframe := 0\<rparr>"
proof -
  let ?scn1 = "frame_set (frame_current scn) (shutter_open scn) scn"
  let ?scn2 = "frame_set (frame_current scn) (shutter_close ?scn1) ?scn1"
  have "only_time_moved scn ?scn2" by simp
  then have "frame_set (frame_current scn) 0 ?scn2 = scn\<lparr>frame_subframe := 0\<rparr>"
    by (rule frame_set_after_move)
  with assms show ?thesis
    by (auto simp: sample_mblur_def Let_def split: sum.splits)
qed

lemma psys_mblur_emitter_result_scene:
  assumes "only_time_moved scn scn1"
    and "fst (psys_mblur_emitter ord ob scn1 (frame_current scn) psys index parts) = Inr r"
  shows "snd (snd (psys_mblur_emitter ord ob scn1 (frame_current scn) psys index parts)) =
           scn\<lparr>frame_subframe := 0\<rparr>"
proof -
  let ?ob1 = "dupli_list_create scn1 ''RENDER'' ob"
  let ?d = "dict_of_pairs (map (\<lambda>p. (fst p, snd p, []::matrix list))
              (zip parts (map dupli_object (dupli_list ?ob1))))"
  let ?r = "emitter_frames (shutter_frames ord scn1) (frame_current scn) psys index index ?d scn1"
  obtain d' ni scn2 where r: "?r = (d', ni, scn2)" by (cases ?r) auto
  have "only_time_moved scn (snd (snd ?r))" using assms(1) by (rule emitter_frames_scene)
  with r have "only_time_moved scn scn2" by simp
  then have "frame_set (frame_current scn) 0 scn2 = scn\<lparr>frame_subframe := 0\<rparr>"
    by (rule frame_set_after_move)
  with r assms(2) show ?thesis
    by (auto simp: psys_mblur_emitter_def Let_def split: if_splits)
qed

lemma psys_mblur_hair_result_scene:
  assumes "only_time_moved scn scn1"
    and "fst (psys_mblur_hair ord ob scn1 (frame_current scn) index start tot parts) = Inr r"
  shows "snd (snd (psys_mblur_hair ord ob scn1 (frame_current scn) index start tot parts)) =
           scn\<lparr>frame_subframe := 0\<rparr>"
proof -
  let ?ob1 = "dupli_list_create scn1 ''RENDER'' ob"
  from assms(2) obtain duplis where
    du: "dupli_objects_at (dupli_list ?ob1) [start..<tot] = Inr duplis"
    by (cases "dupli_objects_at (dupli_list ?ob1) [start..<tot]")
       (auto simp: psys_mblur_hair_def Let_def)
  let ?d = "dict_of_pairs (map (\<lambda>p. (fst p, snd p, []::matrix list)) (zip parts duplis))"
  let ?r = "hair_frames (shutter_frames ord scn1) (frame_current scn) index index ?d
              (dupli_list_clear ?ob1) scn1"
  obtain res ob3 scn2 where r: "?r = (res, ob3, scn2)" by (cases ?r) auto
  have "only_time_moved scn (snd (snd ?r))" using assms(1) by (rule hair_frames_scene)
  with r have "only_time_moved scn scn2" by simp
  then have "frame_set (frame_current scn) 0 scn2 = scn\<lparr>frame_subframe := 0\<rparr>"
    by (rule frame_set_after_move)
  with r du assms(2) show ?thesis
    by (cases res) (auto simp: psys_mblur_hair_def Let_def)
qed

lemma sample_psys_mblur_result_scene:
  assumes "fst (sample_psys_mblur ord ob scn psys index start current_total) =
             Inr (ReturnPair d i)"
  shows "snd (snd (sample_psys_mblur ord ob scn psys index start current_total)) =
           scn\<lparr>frame_subframe := 0\<rparr>"
proof -
  let ?scn1 = "frame_set (frame_current scn) (shutter_open scn) scn"
  have m: "only_time_moved scn ?scn1" by simp
  show ?thesis
    using assms psys_mblur_emitter_result_scene [OF m] psys_mblur_hair_result_scene [OF m]
    by (auto simp: sample_psys_mblur_def Let_def split: if_splits)
qed

lemma sample_psys_mblur_empty_scene:
  "psys_particles (frame_set (frame_current scn) (shutter_open scn) scn) psys = [] \<Longrightarrow>
   sample_psys_mblur ord ob scn psys index start current_total =
     (Inr ReturnFalse, ob, frame_set (frame_current scn) (shutter_open scn) scn)"
  by (simp add: sample_psys_mblur_def Let_def)

lemma ex_frame_set_open_1: "frame_set 10 1 (ex_scene 1 1) = (ex_scene 1 1)\<lparr>frame_current := 11\<rparr>"
  by (simp add: frame_set_def split_frame_def ex_scene_def)

lemma ex_frame_set_open_quarter:
  "frame_set 10 (1/4) (ex_scene (1/4) 1) = (ex_scene (1/4) 1)\<lparr>frame_subframe := 1/4\<rparr>"
proof -
  have "split_frame (real_of_int 10 + 1/4) = (10, 1/4)"
    by (rule split_frame_within) simp_all
  then show ?thesis by (simp add: frame_set_def ex_scene_def)
qed

text \<open>
  Claim C3. The claim is that after any call to \<^verbatim>\<open>sample_mblur\<close> or
  \<^verbatim>\<open>sample_psys_mblur\<close> returns, the empty particle list included, the current frame
  of the scene is the frame that was current before the call. Where the call returns a
  list or a pair this holds: the final \<^verbatim>\<open>frame_set(frame_orig)\<close> has run and the scene
  is back at the original frame, sub-frame 0 (\<open>sample_mblur_result_scene\<close>,
  \<open>sample_psys_mblur_result_scene\<close>). On an empty particle list it does not:
  \<^verbatim>\<open>return False\<close> comes right after \<^verbatim>\<open>frame_set(frame_orig, subframe=shutter_open)\<close>
  and skips the reset, so the scene stays at the shutter-open time
  (\<open>sample_psys_mblur_empty_scene\<close>). Run on a scene at frame 10, sub-frame 0, and an
  emitter system with no alive particle, the call returns \<^verbatim>\<open>False\<close> and leaves the
  scene at frame 11 when the shutter opens at sub-frame 1, and at frame 10, sub-frame
  1/4, when it opens at sub-frame 1/4.
\<close>

theorem sample_psys_mblur_empty_leaves_frame:
  "scene_now (ex_scene 1 1) = (10, 0) \<and>
   sample_psys_mblur (\<le>) (ex_object True [ex_modifier ex_emitter_empty] ex_one_dupli)
       (ex_scene 1 1) ex_emitter_empty 0 0 0 =
     (Inr ReturnFalse, ex_object True [ex_modifier ex_emitter_empty] ex_one_dupli,
      (ex_scene 1 1)\<lparr>frame_current := 11\<rparr>) \<and>
   scene_now (ex_scene (1/4) 1) = (10, 0) \<and>
   sample_psys_mblur (\<le>) (ex_object True [ex_modifier ex_emitter_empty] ex_one_dupli)
       (ex_scene (1/4) 1) ex_emitter_empty 0 0 0 =
     (Inr ReturnFalse, ex_object True [ex_modifier ex_emitter_empty] ex_one_dupli,
      (ex_scene (1/4) 1)\<lparr>frame_subframe := 1/4\<rparr>)"
proof -
  have e: "psys_particles scn ex_emitter_empty = []" for scn
    by (simp add: psys_particles_def ex_emitter_empty_def)
  have a: "frame_current (ex_scene x y) = 10 \<and> shutter_open (ex_scene x y) = x" for x y
    by (simp add: ex_scene_def)
  show ?thesis
    using sample_psys_mblur_empty_scene [where scn = "ex_scene 1 1" and psys = ex_emitter_empty]
      sample_psys_mblur_empty_scene [where scn = "ex_scene (1/4) 1" and psys = ex_emitter_empty]
    by (simp add: e a ex_frame_set_open_1 ex_frame_set_open_quarter)
       (simp add: scene_now_def ex_scene_def)
qed

section \<open>Properties of sample\_mblur and get\_instances\<close>

lemma append_close_samples_ok:
  assumes "\<forall>i \<in> set is. i < length ms" and "distinct is"
  shows "\<exists>ms'. append_close_samples is dl ms = Inr ms' \<and> length ms' = length ms \<and>
           (\<forall>i < length ms. ms' ! i =
              (if i \<in> set is then (fst (ms ! i), snd (ms ! i) @ [dupli_matrix (dl ! i)])
               else ms ! i))"
  using assms
proof (induction "is" arbitrary: ms)
  case Nil
  show ?case by simp
next
  case (Cons m rest)
  let ?ms = "ms[m := (fst (ms ! m), snd (ms ! m) @ [dupli_matrix (dl ! m)])]"
  have m: "m < length ms" and notin: "m \<notin> set rest" and d: "distinct rest"
    using Cons.prems by simp_all
  have "\<forall>i \<in> set rest. i < length ?ms" using Cons.prems by simp
  from Cons.IH [OF this d] obtain ms' where
    r: "append_close_samples rest dl ?ms = Inr ms'" and l: "length ms' = length ?ms"
    and n: "\<forall>i < length ?ms. ms' ! i =
              (if i \<in> set rest then (fst (?ms ! i), snd (?ms ! i) @ [dupli_matrix (dl ! i)])
               else ?ms ! i)"
    by blast
  have "append_close_samples (m # rest) dl ms = Inr ms'" using m r by simp
  moreover have "length ms' = length ms" using l by simp
  moreover have "\<forall>i < length ms. ms' ! i =
              (if i \<in> set (m # rest) then (fst (ms ! i), snd (ms ! i) @ [dupli_matrix (dl ! i)])
               else ms ! i)"
  proof (intro allI impI)
    fix i assume i: "i < length ms"
    show "ms' ! i = (if i \<in> set (m # rest) then (fst (ms ! i), snd (ms ! i) @ [dupli_matrix (dl ! i)])
               else ms ! i)"
    proof (cases "i = m")
      case True
      with n i notin show ?thesis by simp
    next
      case False
      with n i show ?thesis by simp
    qed
  qed
  ultimately show ?case by blast
qed

lemma append_close_samples_equal_lengths:
  assumes "length dl = length ms"
  shows "append_close_samples [0..<length dl] dl ms =
           Inr (map (\<lambda>p. (fst (fst p), snd (fst p) @ [dupli_matrix (snd p)])) (zip ms dl))"
proof -
  have "\<forall>i \<in> set [0..<length dl]. i < length ms" using assms by simp
  from append_close_samples_ok [OF this, of dl] obtain ms' where
    r: "append_close_samples [0..<length dl] dl ms = Inr ms'" and l: "length ms' = length ms"
    and n: "\<forall>i < length ms. ms' ! i =
              (if i \<in> set [0..<length dl] then (fst (ms ! i), snd (ms ! i) @ [dupli_matrix (dl ! i)])
               else ms ! i)"
    by auto
  have "ms' = map (\<lambda>p. (fst (fst p), snd (fst p) @ [dupli_matrix (snd p)])) (zip ms dl)"
    using l n assms by (intro nth_equalityI) simp_all
  with r show ?thesis by simp
qed

lemma append_close_samples_short:
  "\<exists>i \<in> set is. length ms \<le> i \<Longrightarrow> append_close_samples is dl ms = Inl IndexError"
proof (induction "is" arbitrary: ms)
  case Nil
  then show ?case by simp
next
  case (Cons m rest)
  show ?case
  proof (cases "m < length ms")
    case False
    then show ?thesis by simp
  next
    case True
    let ?ms = "ms[m := (fst (ms ! m), snd (ms ! m) @ [dupli_matrix (dl ! m)])]"
    from True Cons.prems have "\<exists>i \<in> set rest. length ?ms \<le> i" by auto
    then have "append_close_samples rest dl ?ms = Inl IndexError" by (rule Cons.IH)
    with True show ?thesis by simp
  qed
qed

lemma sample_mblur_equal_lengths:
  assumes "length (dupli_source ob ''VIEWPORT''
                     (split_frame (real_of_int (frame_current scn) + shutter_close scn))) =
           length (dupli_source ob ''VIEWPORT''
                     (split_frame (real_of_int (frame_current scn) + shutter_open scn)))"
  shows "sample_mblur ob scn dupli =
     (Inr (map (\<lambda>p. (dupli_object (fst p), [dupli_matrix (fst p), dupli_matrix (snd p)]))
             (zip (dupli_source ob ''VIEWPORT''
                     (split_frame (real_of_int (frame_current scn) + shutter_open scn)))
                  (dupli_source ob ''VIEWPORT''
                     (split_frame (real_of_int (frame_current scn) + shutter_close scn))))),
      ob\<lparr>dupli_list := [],
         dupli_calls := dupli_calls ob @
           [(''VIEWPORT'', split_frame (real_of_int (frame_current scn) + shutter_open scn)),
            (''VIEWPORT'', split_frame (real_of_int (frame_current scn) + shutter_close scn))]\<rparr>,
      scn\<lparr>frame_subframe := 0\<rparr>)"
proof -
  let ?open = "dupli_source ob ''VIEWPORT''
                 (split_frame (real_of_int (frame_current scn) + shutter_open scn))"
  let ?close = "dupli_source ob ''VIEWPORT''
                  (split_frame (real_of_int (frame_current scn) + shutter_close scn))"
  let ?ms = "map (\<lambda>d. (dupli_object d, [dupli_matrix d])) ?open"
  let ?scn1 = "frame_set (frame_current scn) (shutter_open scn) scn"
  let ?scn2 = "frame_set (frame_current scn) (shutter_close ?scn1) ?scn1"
  have "length ?close = length ?ms" using assms by simp
  from append_close_samples_equal_lengths [OF this]
  have "append_close_samples [0..<length ?close] ?close ?ms =
          Inr (map (\<lambda>p. (fst (fst p), snd (fst p) @ [dupli_matrix (snd p)])) (zip ?ms ?close))" .
  moreover have "map (\<lambda>p. (fst (fst p), snd (fst p) @ [dupli_matrix (snd p)])) (zip ?ms ?close) =
        map (\<lambda>p. (dupli_object (fst p), [dupli_matrix (fst p), dupli_matrix (snd p)])) (zip ?open ?close)"
    by (auto simp: zip_map1)
  moreover have "only_time_moved scn ?scn2" by simp
  then have "frame_set (frame_current scn) 0 ?scn2 = scn\<lparr>frame_subframe := 0\<rparr>"
    by (rule frame_set_after_move)
  moreover have "shutter_close ?scn1 = shutter_close scn"
    using only_time_moved_fields [of scn ?scn1] by simp
  ultimately show ?thesis
    by (simp add: sample_mblur_def Let_def dupli_list_create_def dupli_list_clear_def)
qed

lemma sample_mblur_counts:
  assumes "length (dupli_source ob ''VIEWPORT''
                     (split_frame (real_of_int (frame_current scn) + shutter_close scn))) =
           length (dupli_source ob ''VIEWPORT''
                     (split_frame (real_of_int (frame_current scn) + shutter_open scn)))"
  shows "\<exists>ms. fst (sample_mblur ob scn dupli) = Inr ms \<and>
           length ms = length (dupli_source ob ''VIEWPORT''
                                 (split_frame (real_of_int (frame_current scn) + shutter_open scn))) \<and>
           (\<forall>e \<in> set ms. length (snd e) = 2)"
  using sample_mblur_equal_lengths [OF assms, of dupli] assms by auto

lemma sample_mblur_calls:
  "dupli_calls (fst (snd (sample_mblur ob scn dupli))) =
     dupli_calls ob @
       [(''VIEWPORT'', split_frame (real_of_int (frame_current scn) + shutter_open scn)),
        (''VIEWPORT'', split_frame (real_of_int (frame_current scn) + shutter_close scn))]"
proof -
  let ?scn1 = "frame_set (frame_current scn) (shutter_open scn) scn"
  have "shutter_close ?scn1 = shutter_close scn"
    using only_time_moved_fields [of scn ?scn1] by simp
  then show ?thesis
    by (simp add: sample_mblur_def Let_def dupli_list_create_def dupli_list_clear_def
        split: sum.splits)
qed

lemma sample_mblur_ignores_dupli: "sample_mblur ob scn dupli = sample_mblur ob scn dupli'"
  by (simp add: sample_mblur_def)

lemma get_instances_static:
  assumes "\<not> ob_mblur_enabled ob scn"
  shows "get_instances ob scn =
     (Inr (map (\<lambda>d. (dupli_object d, Matrix (dupli_matrix d)))
             (dupli_source ob ''VIEWPORT'' (scene_now scn))),
      ob\<lparr>dupli_list := [], dupli_calls := dupli_calls ob @ [(''VIEWPORT'', scene_now scn)]\<rparr>,
      scn)"
  using assms
  by (simp add: get_instances_def Let_def dupli_list_create_def dupli_list_clear_def)

lemma get_instances_mblur_calls:
  assumes "ob_mblur_enabled ob scn"
  shows "dupli_calls (fst (snd (get_instances ob scn))) =
     dupli_calls ob @
       [(''VIEWPORT'', split_frame (real_of_int (frame_current scn) + shutter_open scn)),
        (''VIEWPORT'', split_frame (real_of_int (frame_current scn) + shutter_close scn))]"
proof -
  obtain res ob' scn' where r: "sample_mblur ob scn True = (res, ob', scn')"
    by (cases "sample_mblur ob scn True") auto
  with sample_mblur_calls [of ob scn True] have "dupli_calls ob' =
     dupli_calls ob @
       [(''VIEWPORT'', split_frame (real_of_int (frame_current scn) + shutter_open scn)),
        (''VIEWPORT'', split_frame (real_of_int (frame_current scn) + shutter_close scn))]"
    by simp
  with assms r show ?thesis by (cases res) (simp_all add: get_instances_def)
qed

lemma get_instances_mblur:
  assumes "ob_mblur_enabled ob scn"
    and "length (dupli_source ob ''VIEWPORT''
                   (split_frame (real_of_int (frame_current scn) + shutter_close scn))) =
         length (dupli_source ob ''VIEWPORT''
                   (split_frame (real_of_int (frame_current scn) + shutter_open scn)))"
  shows "get_instances ob scn =
     (Inr (map (\<lambda>p. (dupli_object (fst p), Matrices [dupli_matrix (fst p), dupli_matrix (snd p)]))
             (zip (dupli_source ob ''VIEWPORT''
                     (split_frame (real_of_int (frame_current scn) + shutter_open scn)))
                  (dupli_source ob ''VIEWPORT''
                     (split_frame (real_of_int (frame_current scn) + shutter_close scn))))),
      ob\<lparr>dupli_list := [],
         dupli_calls := dupli_calls ob @
           [(''VIEWPORT'', split_frame (real_of_int (frame_current scn) + shutter_open scn)),
            (''VIEWPORT'', split_frame (real_of_int (frame_current scn) + shutter_close scn))]\<rparr>,
      scn\<lparr>frame_subframe := 0\<rparr>)"
  using assms(1) sample_mblur_equal_lengths [OF assms(2), of True]
  by (simp add: get_instances_def)

lemma get_instances_mblur_more_at_close:
  assumes "ob_mblur_enabled ob scn"
    and "length (dupli_source ob ''VIEWPORT''
                   (split_frame (real_of_int (frame_current scn) + shutter_open scn))) <
         length (dupli_source ob ''VIEWPORT''
                   (split_frame (real_of_int (frame_current scn) + shutter_close scn)))"
  shows "fst (get_instances ob scn) = Inl IndexError"
proof -
  let ?open = "dupli_source ob ''VIEWPORT''
                 (split_frame (real_of_int (frame_current scn) + shutter_open scn))"
  let ?close = "dupli_source ob ''VIEWPORT''
                  (split_frame (real_of_int (frame_current scn) + shutter_close scn))"
  let ?ms = "map (\<lambda>d. (dupli_object d, [dupli_matrix d])) ?open"
  let ?scn1 = "frame_set (frame_current scn) (shutter_open scn) scn"
  have "\<exists>i \<in> set [0..<length ?close]. length ?ms \<le> i"
    using assms(2) by (intro bexI [of _ "length ?open"]) simp_all
  then have "append_close_samples [0..<length ?close] ?close ?ms = Inl IndexError"
    by (rule append_close_samples_short)
  moreover have "shutter_close ?scn1 = shutter_close scn"
    using only_time_moved_fields [of scn ?scn1] by simp
  ultimately show ?thesis
    using assms(1)
    by (simp add: get_instances_def sample_mblur_def Let_def dupli_list_create_def
        dupli_list_clear_def)
qed

lemma ex_split_frame_10:
  "split_frame (real_of_int 10 + 0) = (10, 0) \<and> split_frame (real_of_int 10 + 1) = (11, 0)"
  by (simp add: split_frame_def)

text \<open>
  Claim C4. The claim is that \<^verbatim>\<open>get_instances\<close> creates the host dupli list once
  without object motion blur and returns one pair of instanced object and matrix per
  dupli, and that with motion blur it creates the list twice, at the shutter-open and at
  the shutter-close sub-frame, and returns pairs of instanced object and the two matrices
  (open, close). The first half holds (\<open>get_instances_static\<close>), the two creations hold
  whatever the host generates (\<open>get_instances_mblur_calls\<close>), and the pairs are as
  claimed when the host generates as many duplis at shutter close as at shutter open
  (\<open>get_instances_mblur\<close>). But \<^verbatim>\<open>sample_mblur\<close> appends the shutter-close matrices by
  position over the shutter-close list only, which breaks what its own documentation
  gives as the result, \<^verbatim>\<open>[dupli_object.object, [dupli matrix 1, dupli matrix 2]]\<close>, when
  the two lists differ in length. Run on a scene at frame 10 with the shutter from 0 to
  1: where the host generates the duplis of the objects 7 and 8 at shutter open and only
  that of object 7 at shutter close, the record of object 8 holds one matrix; where it
  generates one dupli at shutter open and two at shutter close, the call raises
  IndexError (\<open>get_instances_mblur_more_at_close\<close>). In both runs the dupli list was
  created twice, at frame 10 and at frame 11.
\<close>

theorem get_instances_unequal_dupli_counts:
  "ob_mblur_enabled (ex_object True [] ex_shrinking_duplis) (ex_scene 0 1) \<and>
   fst (get_instances (ex_object True [] ex_shrinking_duplis) (ex_scene 0 1)) =
     Inr [(7, Matrices [ident4, shift4]), (8, Matrices [ident4])] \<and>
   dupli_calls (fst (snd (get_instances (ex_object True [] ex_shrinking_duplis) (ex_scene 0 1)))) =
     [(''VIEWPORT'', (10, 0)), (''VIEWPORT'', (11, 0))] \<and>
   ob_mblur_enabled (ex_object True [] ex_growing_duplis) (ex_scene 0 1) \<and>
   fst (get_instances (ex_object True [] ex_growing_duplis) (ex_scene 0 1)) = Inl IndexError \<and>
   dupli_calls (fst (snd (get_instances (ex_object True [] ex_growing_duplis) (ex_scene 0 1)))) =
     [(''VIEWPORT'', (10, 0)), (''VIEWPORT'', (11, 0))]"
  using ex_split_frame_10
  by (simp add: get_instances_def sample_mblur_def ob_mblur_enabled_def ex_object_def
      ex_scene_def ex_shrinking_duplis_def ex_growing_duplis_def frame_set_def
      scene_now_def dupli_list_create_def dupli_list_clear_def Let_def upt_rec [of 0])

section \<open>What sample\_psys\_mblur returns\<close>

lemma psys_mblur_emitter_not_false:
  "fst (psys_mblur_emitter ord ob scn1 fo psys index parts) \<noteq> Inr ReturnFalse"
  by (simp add: psys_mblur_emitter_def Let_def split: prod.splits)

lemma psys_mblur_hair_not_false:
  "fst (psys_mblur_hair ord ob scn1 fo index start tot parts) \<noteq> Inr ReturnFalse"
  by (simp add: psys_mblur_hair_def Let_def split: prod.splits sum.splits)

lemma sample_psys_mblur_false_iff:
  "fst (sample_psys_mblur ord ob scn psys index start current_total) = Inr ReturnFalse \<longleftrightarrow>
   psys_particles (frame_set (frame_current scn) (shutter_open scn) scn) psys = []"
  by (simp add: sample_psys_mblur_def Let_def psys_mblur_emitter_not_false psys_mblur_hair_not_false)

lemma psys_mblur_emitter_pair:
  assumes "parts \<noteq> []" and "dupli_source ob ''RENDER'' (scene_now scn1) \<noteq> []"
  shows "\<exists>d i. fst (psys_mblur_emitter ord ob scn1 fo psys index parts) = Inr (ReturnPair d i)"
proof -
  let ?ob1 = "dupli_list_create scn1 ''RENDER'' ob"
  let ?d = "dict_of_pairs (map (\<lambda>p. (fst p, snd p, []::matrix list)) (zip parts (map dupli_object (dupli_list ?ob1))))"
  let ?r = "emitter_frames (shutter_frames ord scn1) fo psys index index ?d scn1"
  obtain d' ni scn2 where r: "?r = (d', ni, scn2)" by (cases ?r) auto
  have "dupli_list ?ob1 \<noteq> []" using assms(2) by (simp add: dupli_list_create_def)
  with assms(1) have "zip parts (map dupli_object (dupli_list ?ob1)) \<noteq> []"
    by (cases parts; cases "dupli_list ?ob1") simp_all
  then have "?d \<noteq> []" by (simp add: dict_of_pairs_empty_iff)
  moreover have "length (fst ?r) = length ?d" by (rule emitter_frames_length)
  ultimately have "d' \<noteq> []" using r by auto
  with r show ?thesis by (simp add: psys_mblur_emitter_def Let_def)
qed

lemma dupli_objects_at_ok:
  "\<forall>i \<in> set is. i < length dl \<Longrightarrow>
   dupli_objects_at dl is = Inr (map (\<lambda>i. dupli_object (dl ! i)) is)"
  by (induction "is") simp_all

lemma hair_append_ok:
  "new_index + length d \<le> length dl \<Longrightarrow> \<exists>d'. hair_append dl new_index d = Inr d'"
proof (induction d arbitrary: new_index)
  case Nil
  show ?case by simp
next
  case (Cons e d)
  then have "Suc new_index + length d \<le> length dl" by simp
  then obtain d' where "hair_append dl (Suc new_index) d = Inr d'"
    using Cons.IH by blast
  moreover have "new_index < length dl" using Cons.prems by simp
  ultimately show ?case by simp
qed

lemma hair_frames_ok:
  assumes "\<forall>f \<in> set fs. index + length d \<le>
             length (dupli_source ob ''RENDER'' (split_frame (real_of_int fo + f)))"
  shows "\<exists>d' ni. fst (hair_frames fs fo index new_index d ob scn) = Inr (d', ni)"
  using assms
proof (induction fs arbitrary: new_index d ob scn)
  case Nil
  show ?case by simp
next
  case (Cons f fs)
  let ?scn = "frame_set fo f scn"
  let ?ob = "dupli_list_create ?scn ''RENDER'' ob"
  have dl: "dupli_list ?ob = dupli_source ob ''RENDER'' (split_frame (real_of_int fo + f))"
    by simp
  with Cons.prems have "index + length d \<le> length (dupli_list ?ob)" by simp
  then obtain d' where d': "hair_append (dupli_list ?ob) index d = Inr d'"
    using hair_append_ok by blast
  then have len: "length d' = length d" by (rule hair_append_length)
  have src: "dupli_source (dupli_list_clear ?ob) = dupli_source ob"
    by (simp add: dupli_list_clear_def dupli_list_create_def)
  have "\<forall>g \<in> set fs. index + length d' \<le>
          length (dupli_source (dupli_list_clear ?ob) ''RENDER'' (split_frame (real_of_int fo + g)))"
    using Cons.prems len src by simp
  from Cons.IH [OF this] d' show ?case by (simp add: Let_def)
qed

lemma psys_mblur_hair_pair:
  assumes "current_total \<le> length (dupli_source ob ''RENDER'' (scene_now scn1))"
    and "\<forall>f \<in> set (shutter_frames ord scn1).
           index + length parts \<le>
             length (dupli_source ob ''RENDER'' (split_frame (real_of_int fo + f)))"
  shows "\<exists>d i. fst (psys_mblur_hair ord ob scn1 fo index start current_total parts) = Inr (ReturnPair d i)"
proof -
  let ?ob1 = "dupli_list_create scn1 ''RENDER'' ob"
  have dl: "dupli_list ?ob1 = dupli_source ob ''RENDER'' (scene_now scn1)"
    by (simp add: dupli_list_create_def)
  have "\<forall>i \<in> set [start..<current_total]. i < length (dupli_list ?ob1)"
    using assms(1) dl by simp
  then obtain duplis where du: "dupli_objects_at (dupli_list ?ob1) [start..<current_total] = Inr duplis"
    using dupli_objects_at_ok by blast
  let ?d = "dict_of_pairs (map (\<lambda>p. (fst p, snd p, []::matrix list)) (zip parts duplis))"
  have "length ?d \<le> length (map (\<lambda>p. (fst p, snd p, []::matrix list)) (zip parts duplis))"
    by (rule length_dict_of_pairs)
  then have "length ?d \<le> length parts" by simp
  moreover have "dupli_source (dupli_list_clear ?ob1) = dupli_source ob"
    by (simp add: dupli_list_clear_def dupli_list_create_def)
  ultimately have "\<forall>f \<in> set (shutter_frames ord scn1).
      index + length ?d \<le>
        length (dupli_source (dupli_list_clear ?ob1) ''RENDER'' (split_frame (real_of_int fo + f)))"
    using assms(2) by fastforce
  from hair_frames_ok [OF this] obtain d' ni where
    "fst (hair_frames (shutter_frames ord scn1) fo index index ?d (dupli_list_clear ?ob1) scn1) = Inr (d', ni)"
    by blast
  with du show ?thesis
    by (auto simp: psys_mblur_hair_def Let_def split: prod.splits sum.splits)
qed

lemma sample_psys_mblur_pair_emitter:
  assumes "psys_particles (frame_set (frame_current scn) (shutter_open scn) scn) psys \<noteq> []"
    and "psys_type psys = ''EMITTER''"
    and "dupli_source ob ''RENDER''
           (scene_now (frame_set (frame_current scn) (shutter_open scn) scn)) \<noteq> []"
  shows "\<exists>d i. fst (sample_psys_mblur ord ob scn psys index start current_total) =
           Inr (ReturnPair d i)"
proof -
  let ?scn1 = "frame_set (frame_current scn) (shutter_open scn) scn"
  from psys_mblur_emitter_pair [OF assms(1) assms(3)] assms(1,2) show ?thesis
    by (simp add: sample_psys_mblur_def Let_def)
qed

lemma sample_psys_mblur_pair_hair:
  assumes "psys_particles (frame_set (frame_current scn) (shutter_open scn) scn) psys \<noteq> []"
    and "psys_type psys \<noteq> ''EMITTER''"
    and "current_total \<le>
           length (dupli_source ob ''RENDER''
                     (scene_now (frame_set (frame_current scn) (shutter_open scn) scn)))"
    and "\<forall>f \<in> set (shutter_frames ord scn).
           index + length (psys_particles (frame_set (frame_current scn) (shutter_open scn) scn) psys)
             \<le> length (dupli_source ob ''RENDER''
                         (scene_now (frame_set (frame_current scn) f scn)))"
  shows "\<exists>d i. fst (sample_psys_mblur ord ob scn psys index start current_total) =
           Inr (ReturnPair d i)"
proof -
  let ?scn1 = "frame_set (frame_current scn) (shutter_open scn) scn"
  have b: "\<forall>f \<in> set (shutter_frames ord ?scn1).
           index + length (psys_particles ?scn1 psys)
             \<le> length (dupli_source ob ''RENDER''
                         (split_frame (real_of_int (frame_current scn) + f)))"
    using assms(4) by simp
  from psys_mblur_hair_pair [OF assms(3) b] assms(1,2) show ?thesis
    by (simp add: sample_psys_mblur_def Let_def)
qed

lemma get_psys_instances_loop_mblur_nonempty:
  assumes "ob_mblur_enabled ob scn"
    and "fst (get_psys_instances_loop ord mods all_duplis ct index ob scn) = Inr r"
  shows "\<forall>m \<in> set mods. psys_selected m \<longrightarrow>
           psys_particles (frame_set (frame_current scn) (shutter_open scn) scn) (modifier_psys m) \<noteq> []"
  using assms
proof (induction mods arbitrary: all_duplis ct index ob scn)
  case Nil
  show ?case by simp
next
  case (Cons m rest)
  show ?case
  proof (cases "psys_selected m")
    case False
    with Cons.prems have "fst (get_psys_instances_loop ord rest all_duplis ct index ob scn) = Inr r"
      by (auto simp: psys_selected_def Let_def split: if_splits)
    from Cons.IH [OF Cons.prems(1) this] False show ?thesis by simp
  next
    case True
    let ?psys = "modifier_psys m"
    let ?ct = "ct + length (psys_particles scn ?psys)"
    let ?call = "sample_psys_mblur ord ob scn ?psys index ct ?ct"
    obtain res ob' scn' where call: "?call = (res, ob', scn')" by (cases ?call) auto
    have ob': "only_duplis_touched ob ob'"
      using sample_psys_mblur_object [of ob ord scn ?psys index ct ?ct] call by simp
    from True Cons.prems call obtain d i where
      res: "res = Inr (ReturnPair d i)"
      and rest: "fst (get_psys_instances_loop ord rest (dict_update all_duplis d) ?ct i ob' scn') = Inr r"
      by (cases res; cases "projr res")
         (auto simp: psys_selected_def Let_def split: if_splits)
    have "scn' = scn\<lparr>frame_subframe := 0\<rparr>"
      using sample_psys_mblur_result_scene [of ord ob scn ?psys index ct ?ct d i] call res
      by simp
    then have scn': "only_subframe_moved scn scn'" by simp
    have "fst ?call \<noteq> Inr ReturnFalse" using call res by simp
    then have here: "psys_particles (frame_set (frame_current scn) (shutter_open scn) scn) ?psys \<noteq> []"
      by (simp add: sample_psys_mblur_false_iff)
    have "ob_mblur_enabled ob' scn'"
      using Cons.prems(1) ob_mblur_enabled_preserved [OF ob' scn'] by simp
    from Cons.IH [OF this rest]
    have "\<forall>m \<in> set rest. psys_selected m \<longrightarrow>
            psys_particles (frame_set (frame_current scn') (shutter_open scn') scn') (modifier_psys m) \<noteq> []" .
    moreover have "psys_particles (frame_set (frame_current scn') (shutter_open scn') scn') p =
          psys_particles (frame_set (frame_current scn) (shutter_open scn) scn) p" for p
      by (rule psys_particles_cong) (rule shutter_open_time [OF scn'])
    ultimately show ?thesis using here by simp
  qed
qed

lemma get_psys_instances_mblur_nonempty:
  assumes "ob_mblur_enabled ob scn"
    and "fst (get_psys_instances ord ob scn) = Inr r"
    and "has_modifiers ob"
  shows "\<forall>m \<in> set (modifiers ob). psys_selected m \<longrightarrow>
           psys_particles (frame_set (frame_current scn) (shutter_open scn) scn) (modifier_psys m) \<noteq> []"
proof -
  let ?loop = "get_psys_instances_loop ord (modifiers ob) [] 0 0 ob scn"
  obtain res ob2 scn2 where l: "?loop = (res, ob2, scn2)" by (cases ?loop) auto
  with assms have "fst ?loop = Inr r"
    by (cases res) (auto simp: get_psys_instances_def Let_def)
  from get_psys_instances_loop_mblur_nonempty [OF assms(1) this] show ?thesis .
qed

lemma emitter_matrix_closed_form:
  "emitter_matrix (lx, ly, lz) k (sx, sy, sz) =
     [[sx * k, 0, 0, lx], [0, sy * k, 0, ly], [0, 0, sz * k, lz], [0, 0, 0, 1]]"
  by (simp add: emitter_matrix_def vec_times_def vec_x_def vec_y_def vec_z_def
      Matrix_Translation_def Matrix_Scale_def mat_mul_def Let_def)

text \<open>
  Claim C9, amended. \<^verbatim>\<open>sample_psys_mblur\<close> returns the bare \<^verbatim>\<open>False\<close> when the
  particle list collected at the shutter-open sub-frame is empty, and never when it is
  not. On a non-empty list it returns a pair of dictionary and index provided the host
  dupli list serves every read: for an emitter system the list generated at shutter open
  is not empty; for any other system it has \<open>current_total\<close> entries at shutter open and
  \<open>index\<close> plus the number of particles entries at each sampled sub-frame. Its caller
  \<^verbatim>\<open>get_psys_instances\<close>, with object motion blur enabled, returns a result only if
  the list was non-empty for every particle system it processed.
\<close>

theorem sample_psys_mblur_return_shape:
  "(psys_particles (frame_set (frame_current scn) (shutter_open scn) scn) psys = [] \<longrightarrow>
      fst (sample_psys_mblur ord ob scn psys index start current_total) = Inr ReturnFalse) \<and>
   (psys_particles (frame_set (frame_current scn) (shutter_open scn) scn) psys \<noteq> [] \<longrightarrow>
      fst (sample_psys_mblur ord ob scn psys index start current_total) \<noteq> Inr ReturnFalse) \<and>
   (psys_particles (frame_set (frame_current scn) (shutter_open scn) scn) psys \<noteq> [] \<and>
    psys_type psys = ''EMITTER'' \<and>
    dupli_source ob ''RENDER''
      (scene_now (frame_set (frame_current scn) (shutter_open scn) scn)) \<noteq> [] \<longrightarrow>
      (\<exists>d i. fst (sample_psys_mblur ord ob scn psys index start current_total) =
         Inr (ReturnPair d i))) \<and>
   (psys_particles (frame_set (frame_current scn) (shutter_open scn) scn) psys \<noteq> [] \<and>
    psys_type psys \<noteq> ''EMITTER'' \<and>
    current_total \<le>
      length (dupli_source ob ''RENDER''
                (scene_now (frame_set (frame_current scn) (shutter_open scn) scn))) \<and>
    (\<forall>f \<in> set (shutter_frames ord scn).
       index + length (psys_particles (frame_set (frame_current scn) (shutter_open scn) scn) psys)
         \<le> length (dupli_source ob ''RENDER''
                     (scene_now (frame_set (frame_current scn) f scn)))) \<longrightarrow>
      (\<exists>d i. fst (sample_psys_mblur ord ob scn psys index start current_total) =
         Inr (ReturnPair d i))) \<and>
   (ob_mblur_enabled ob scn \<and> has_modifiers ob \<and>
    (\<exists>r. fst (get_psys_instances ord ob scn) = Inr r) \<longrightarrow>
      (\<forall>m \<in> set (modifiers ob). psys_selected m \<longrightarrow>
         psys_particles (frame_set (frame_current scn) (shutter_open scn) scn)
           (modifier_psys m) \<noteq> []))"
  using sample_psys_mblur_false_iff [of ord ob scn psys index start current_total]
    sample_psys_mblur_pair_emitter [of scn psys ob ord index start current_total]
    sample_psys_mblur_pair_hair [of scn psys current_total ob ord index start]
    get_psys_instances_mblur_nonempty [of ob scn ord]
  by blast

theorem sample_psys_mblur_return_shape_witness:
  "fst (sample_psys_mblur (\<le>) (ex_object True [ex_modifier ex_emitter_empty] ex_one_dupli)
          (ex_scene 0 1) ex_emitter_empty 0 0 0) = Inr ReturnFalse \<and>
   fst (sample_psys_mblur (\<le>) (ex_object True [ex_modifier ex_emitter] ex_one_dupli)
          (ex_scene 0 1) ex_emitter 0 0 1) \<noteq> Inr ReturnFalse \<and>
   (\<exists>d i. fst (sample_psys_mblur (\<le>) (ex_object True [ex_modifier ex_emitter] ex_one_dupli)
              (ex_scene 0 1) ex_emitter 0 0 1) = Inr (ReturnPair d i)) \<and>
   (\<exists>d i. fst (sample_psys_mblur (\<le>) (ex_object True [ex_modifier ex_hair] ex_one_dupli)
              (ex_scene 0 1) ex_hair 0 0 1) = Inr (ReturnPair d i)) \<and>
   fst (get_psys_instances (\<le>) (ex_object True [ex_modifier ex_emitter] ex_one_dupli)
          (ex_scene 0 1)) = Inr [(0, 7, [ex_particle_matrix, ex_particle_matrix])] \<and>
   psys_particles (frame_set 10 0 (ex_scene 0 1)) ex_emitter \<noteq> [] \<and>
   fst (get_psys_instances (\<le>) (ex_object True [ex_modifier ex_emitter_empty] ex_one_dupli)
          (ex_scene 0 1)) = Inl TypeError"
proof -
  let ?scn = "ex_scene 0 1"
  let ?on = "ex_object True [ex_modifier ex_emitter] ex_one_dupli"
  have e: "psys_particles (frame_set (frame_current ?scn) (shutter_open ?scn) ?scn) ex_emitter_empty = []"
    by (simp add: psys_particles_def ex_emitter_empty_def)
  have n: "psys_particles (frame_set (frame_current ?scn) (shutter_open ?scn) ?scn) ex_emitter \<noteq> [] \<and>
    psys_type ex_emitter = ''EMITTER'' \<and>
    dupli_source ?on ''RENDER''
      (scene_now (frame_set (frame_current ?scn) (shutter_open ?scn) ?scn)) \<noteq> []"
    by (simp add: psys_particles_def ex_emitter_def ex_object_def ex_one_dupli_def)
  have h: "psys_particles (frame_set (frame_current ?scn) (shutter_open ?scn) ?scn) ex_hair \<noteq> [] \<and>
    psys_type ex_hair \<noteq> ''EMITTER'' \<and>
    1 \<le> length (dupli_source (ex_object True [ex_modifier ex_hair] ex_one_dupli) ''RENDER''
           (scene_now (frame_set (frame_current ?scn) (shutter_open ?scn) ?scn))) \<and>
    (\<forall>f \<in> set (shutter_frames (\<le>) ?scn).
       0 + length (psys_particles (frame_set (frame_current ?scn) (shutter_open ?scn) ?scn) ex_hair)
         \<le> length (dupli_source (ex_object True [ex_modifier ex_hair] ex_one_dupli) ''RENDER''
               (scene_now (frame_set (frame_current ?scn) f ?scn))))"
    by (simp add: psys_particles_def ex_hair_def ex_object_def ex_one_dupli_def)
  have g: "fst (get_psys_instances (\<le>) ?on ?scn) =
             Inr [(0, 7, [ex_particle_matrix, ex_particle_matrix])]"
    by (simp add: get_psys_instances_def ob_mblur_enabled_def sample_psys_mblur_def
        psys_mblur_emitter_def ex_object_def ex_scene_def ex_emitter_def ex_modifier_def
        ex_one_dupli_def frame_set_def psys_particles_def scene_now_def dupli_list_create_def
        dupli_list_clear_def dict_of_pairs_def dict_update_def shutter_frames_def
        emitter_append_def emitter_matrix_closed_form ex_particle_matrix_def Let_def)
  have c: "ob_mblur_enabled ?on ?scn \<and> has_modifiers ?on \<and>
           ex_modifier ex_emitter \<in> set (modifiers ?on) \<and> psys_selected (ex_modifier ex_emitter)"
    by (simp add: ob_mblur_enabled_def ex_object_def ex_scene_def psys_selected_def
        ex_modifier_def ex_emitter_def)
  have fs: "frame_set (frame_current ?scn) (shutter_open ?scn) ?scn = frame_set 10 0 ?scn"
    by (simp add: ex_scene_def)
  have m: "modifier_psys (ex_modifier ex_emitter) = ex_emitter" by (simp add: ex_modifier_def)
  have t: "fst (get_psys_instances (\<le>) (ex_object True [ex_modifier ex_emitter_empty] ex_one_dupli)
          ?scn) = Inl TypeError"
    by (simp add: get_psys_instances_def ob_mblur_enabled_def sample_psys_mblur_def
        ex_object_def ex_scene_def ex_emitter_empty_def ex_modifier_def
        frame_set_def psys_particles_def scene_now_def Let_def)
  have five: "psys_particles (frame_set 10 0 ?scn) ex_emitter \<noteq> []"
    using c g fs m sample_psys_mblur_return_shape [of ?scn ex_emitter "(\<le>)" ?on 0 0 1]
    by (metis (no_types, lifting))
  show ?thesis
    using e n h t g five
      sample_psys_mblur_return_shape [of ?scn ex_emitter_empty "(\<le>)"
        "ex_object True [ex_modifier ex_emitter_empty] ex_one_dupli" 0 0 0]
      sample_psys_mblur_return_shape [of ?scn ex_emitter "(\<le>)" ?on 0 0 1]
      sample_psys_mblur_return_shape [of ?scn ex_hair "(\<le>)"
        "ex_object True [ex_modifier ex_hair] ex_one_dupli" 0 0 1]
    by blast
qed

text \<open>
  Claim C9 as stated fails where the particle list is not empty but the host generates no
  dupli: the emitter branch raises UnboundLocalError at \<^verbatim>\<open>del scale, transl, mat\<close>, the
  hair branch raises IndexError at \<^verbatim>\<open>ob.dupli_list[dupli_index]\<close>; neither returns a pair.
\<close>

theorem sample_psys_mblur_raises_counterexample:
  "psys_particles (frame_set 10 0 (ex_scene 0 1)) ex_emitter = [0] \<and>
   fst (sample_psys_mblur (\<le>) (ex_object True [ex_modifier ex_emitter] ex_no_dupli)
          (ex_scene 0 1) ex_emitter 0 0 1) = Inl UnboundLocalError \<and>
   psys_particles (frame_set 10 0 (ex_scene 0 1)) ex_hair = [0] \<and>
   fst (sample_psys_mblur (\<le>) (ex_object True [ex_modifier ex_hair] ex_no_dupli)
          (ex_scene 0 1) ex_hair 0 0 1) = Inl IndexError"
  by (simp add: sample_psys_mblur_def psys_mblur_emitter_def psys_mblur_hair_def
      ex_object_def ex_scene_def ex_emitter_def ex_hair_def ex_no_dupli_def frame_set_def
      psys_particles_def scene_now_def dupli_list_create_def dupli_list_clear_def
      dict_of_pairs_def shutter_frames_def emitter_append_def Let_def)

section \<open>Properties of get\_psys\_instances without motion blur\<close>

lemma emitter_dict_entry:
  assumes "psys_type psys = ''EMITTER''"
    and "(particle, dobj, mats) \<in> set (static_dupli_dict scn psys parts duplis dl)"
  shows "mats = [emitter_matrix (particle_location psys (scene_now scn) particle)
                   (particle_size psys (scene_now scn) particle)
                   (object_scale scn (scene_now scn) dobj)] \<and>
         particle \<in> set parts \<and> dobj \<in> set duplis"
proof -
  let ?ps = "map (\<lambda>p. (fst p, snd p, []::matrix list)) (zip parts duplis)"
  from assms obtain e where e: "e \<in> set (dict_of_pairs ?ps)"
    and eq: "(particle, dobj, mats) =
       (fst e, fst (snd e),
        snd (snd e) @ [emitter_matrix (particle_location psys (scene_now scn) (fst e))
                         (particle_size psys (scene_now scn) (fst e))
                         (object_scale scn (scene_now scn) (fst (snd e)))])"
    by (auto simp: static_dupli_dict_def emitter_append_def)
  from e have "e \<in> set ?ps" using set_dict_of_pairs by blast
  then obtain p where p: "p \<in> set (zip parts duplis)" and ep: "e = (fst p, snd p, [])"
    by auto
  from p have "fst p \<in> set parts" "snd p \<in> set duplis"
    by (auto dest: set_zip_leftD set_zip_rightD simp: prod_eq_iff[symmetric] intro: set_zip_leftD [of "fst p" "snd p"] set_zip_rightD [of "fst p" "snd p"])
  with eq ep show ?thesis by simp
qed

lemma emitter_dict_keys:
  "psys_type psys = ''EMITTER'' \<Longrightarrow>
   fst ` set (static_dupli_dict scn psys parts duplis dl) = fst ` set (zip parts duplis)"
proof -
  assume em: "psys_type psys = ''EMITTER''"
  let ?ps = "map (\<lambda>p. (fst p, snd p, []::matrix list)) (zip parts duplis)"
  have "fst ` set (emitter_append scn psys (dict_of_pairs ?ps)) = fst ` set (dict_of_pairs ?ps)"
    by (force simp: emitter_append_def)
  also have "\<dots> = fst ` set ?ps" by (rule keys_dict_of_pairs)
  also have "\<dots> = fst ` set (zip parts duplis)" by force
  finally show ?thesis using em by (simp add: static_dupli_dict_def)
qed

lemma other_dict_entry:
  assumes "psys_type psys \<noteq> ''EMITTER''"
    and "(particle, dobj, mats) \<in> set (static_dupli_dict scn psys parts duplis dl)"
  shows "(\<exists>d \<in> set dl. mats = [dupli_matrix d]) \<and> particle \<in> set parts \<and> dobj \<in> set duplis"
proof -
  let ?ps = "map (\<lambda>p. (fst p, fst (snd p), [snd (snd p)]))
               (zip parts (zip duplis (map dupli_matrix dl)))"
  from assms have "(particle, dobj, mats) \<in> set ?ps"
    using set_dict_of_pairs [of ?ps] by (auto simp: static_dupli_dict_def)
  then obtain p where p: "p \<in> set (zip parts (zip duplis (map dupli_matrix dl)))"
    and eq: "(particle, dobj, mats) = (fst p, fst (snd p), [snd (snd p)])"
    by auto
  obtain a b c where abc: "p = (a, b, c)" by (cases p) auto
  with p have "a \<in> set parts" "(b, c) \<in> set (zip duplis (map dupli_matrix dl))"
    by (auto dest: set_zip_leftD set_zip_rightD)
  then have "a \<in> set parts" "b \<in> set duplis" "c \<in> set (map dupli_matrix dl)"
    by (auto dest: set_zip_leftD set_zip_rightD)
  with eq abc show ?thesis by auto
qed

lemma get_psys_instances_loop_static_entries:
  assumes "\<not> ob_mblur_enabled ob scn"
    and "fst (get_psys_instances_loop ord mods all_duplis ct index ob scn) = Inr r"
    and "e \<in> set r"
  shows "e \<in> set all_duplis \<or>
         (\<exists>m \<in> set mods. psys_selected m \<and>
            (\<exists>duplis. e \<in> set (static_dupli_dict scn (modifier_psys m)
                                 (psys_particles scn (modifier_psys m)) duplis (dupli_list ob))))"
  using assms
proof (induction mods arbitrary: all_duplis ct index)
  case Nil
  then show ?case by simp
next
  case (Cons m rest)
  show ?case
  proof (cases "psys_selected m")
    case False
    with Cons.prems have "fst (get_psys_instances_loop ord rest all_duplis ct index ob scn) = Inr r"
      by (auto simp: psys_selected_def Let_def split: if_splits)
    from Cons.IH [OF Cons.prems(1) this Cons.prems(3)] show ?thesis by auto
  next
    case True
    let ?psys = "modifier_psys m"
    let ?parts = "psys_particles scn ?psys"
    let ?ct = "ct + length ?parts"
    from True Cons.prems obtain duplis where
      du: "dupli_objects_at (dupli_list ob) [ct..<?ct] = Inr duplis"
      and rest: "fst (get_psys_instances_loop ord rest
                   (dict_update all_duplis (static_dupli_dict scn ?psys ?parts duplis (dupli_list ob)))
                   ?ct index ob scn) = Inr r"
      by (cases "dupli_objects_at (dupli_list ob) [ct..<?ct]")
         (auto simp: psys_selected_def Let_def split: if_splits)
    from Cons.IH [OF Cons.prems(1) rest Cons.prems(3)]
    consider "e \<in> set (dict_update all_duplis (static_dupli_dict scn ?psys ?parts duplis (dupli_list ob)))"
      | "\<exists>m \<in> set rest. psys_selected m \<and>
            (\<exists>duplis. e \<in> set (static_dupli_dict scn (modifier_psys m)
                                 (psys_particles scn (modifier_psys m)) duplis (dupli_list ob)))"
      by blast
    then show ?thesis
    proof cases
      case 1
      then have "e \<in> set all_duplis \<or> e \<in> set (static_dupli_dict scn ?psys ?parts duplis (dupli_list ob))"
        using set_dict_update by blast
      with True show ?thesis by auto
    next
      case 2
      then show ?thesis by auto
    qed
  qed
qed

lemma get_psys_instances_loop_static_state:
  assumes "\<not> ob_mblur_enabled ob scn"
  shows "snd (get_psys_instances_loop ord mods all_duplis ct index ob scn) = (ob, scn)"
  using assms
  by (induction mods arbitrary: all_duplis ct index)
     (auto simp: Let_def split: sum.splits)

lemma get_psys_instances_static_entries:
  assumes "\<not> ob_mblur_enabled ob scn"
    and "fst (get_psys_instances ord ob scn) = Inr all_duplis"
    and "e \<in> set all_duplis"
  shows "\<exists>m \<in> set (modifiers ob). psys_selected m \<and>
           (\<exists>duplis. e \<in> set (static_dupli_dict scn (modifier_psys m)
                                (psys_particles scn (modifier_psys m)) duplis
                                (dupli_source ob ''RENDER'' (scene_now scn))))"
proof (cases "has_modifiers ob")
  case False
  with assms show ?thesis by (simp add: get_psys_instances_def)
next
  case True
  let ?ob1 = "dupli_list_create scn ''RENDER'' ob"
  let ?loop = "get_psys_instances_loop ord (modifiers ?ob1) [] 0 0 ?ob1 scn"
  obtain res ob2 scn2 where l: "?loop = (res, ob2, scn2)" by (cases ?loop) auto
  with assms True have "fst ?loop = Inr all_duplis"
    by (cases res) (auto simp: get_psys_instances_def Let_def)
  moreover have "\<not> ob_mblur_enabled ?ob1 scn" using assms(1) by simp
  ultimately have "e \<in> set [] \<or>
         (\<exists>m \<in> set (modifiers ?ob1). psys_selected m \<and>
            (\<exists>duplis. e \<in> set (static_dupli_dict scn (modifier_psys m)
                                 (psys_particles scn (modifier_psys m)) duplis (dupli_list ?ob1))))"
    using assms(3) by (intro get_psys_instances_loop_static_entries)
  then show ?thesis by simp
qed

lemma get_psys_instances_static_counts:
  assumes "\<not> ob_mblur_enabled ob scn"
    and "fst (get_psys_instances ord ob scn) = Inr r"
    and "e \<in> set r"
  shows "length (snd (snd e)) = 1"
proof -
  obtain p dobj mats where e: "e = (p, dobj, mats)" by (cases e) auto
  from get_psys_instances_static_entries [OF assms] obtain m :: modifier and duplis where
    d: "e \<in> set (static_dupli_dict scn (modifier_psys m)
              (psys_particles scn (modifier_psys m)) duplis
              (dupli_source ob ''RENDER'' (scene_now scn)))"
    by auto
  show ?thesis
  proof (cases "psys_type (modifier_psys m) = ''EMITTER''")
    case True
    from emitter_dict_entry [OF True d [unfolded e]] e show ?thesis by simp
  next
    case False
    from other_dict_entry [OF False d [unfolded e]] e show ?thesis by auto
  qed
qed

text \<open>
  Claim C6. Without object motion blur, every record \<^verbatim>\<open>particle: [object, matrices]\<close>
  that \<^verbatim>\<open>get_psys_instances\<close> returns comes from a processed particle system that
  holds the particle; when that system is of emitter type, the record holds a single
  matrix, the translation matrix of the particle's location times the product of the
  three axis-aligned scale matrices whose factors are the scale of the instanced object
  times the particle's size; otherwise it holds a single dupli matrix of the host list.
  (\<open>emitter_dict_entry\<close> and \<open>emitter_dict_keys\<close> say the same of the dictionary of one
  emitter system: one such record for every particle paired with a dupli.)
\<close>

theorem get_psys_instances_emitter_matrix:
  assumes "\<not> ob_mblur_enabled ob scn"
    and "fst (get_psys_instances ord ob scn) = Inr all_duplis"
    and "(particle, dobj, mats) \<in> set all_duplis"
  shows "\<exists>m \<in> set (modifiers ob).
           psys_selected m \<and> particle \<in> set (psys_particles scn (modifier_psys m)) \<and>
           (if psys_type (modifier_psys m) = ''EMITTER''
            then (let loc = particle_location (modifier_psys m) (scene_now scn) particle;
                      scale = vec_times (object_scale scn (scene_now scn) dobj)
                                (particle_size (modifier_psys m) (scene_now scn) particle)
                  in mats =
                       [mat_mul (Matrix_Translation loc)
                          (mat_mul (mat_mul (Matrix_Scale (vec_x scale) (1, 0, 0))
                                            (Matrix_Scale (vec_y scale) (0, 1, 0)))
                                   (Matrix_Scale (vec_z scale) (0, 0, 1)))])
            else (\<exists>d \<in> set (dupli_source ob ''RENDER'' (scene_now scn)). mats = [dupli_matrix d]))"
proof -
  from get_psys_instances_static_entries [OF assms] obtain m duplis where
    m: "m \<in> set (modifiers ob)" "psys_selected m"
    and e: "(particle, dobj, mats) \<in> set (static_dupli_dict scn (modifier_psys m)
              (psys_particles scn (modifier_psys m)) duplis
              (dupli_source ob ''RENDER'' (scene_now scn)))"
    by blast
  show ?thesis
  proof (cases "psys_type (modifier_psys m) = ''EMITTER''")
    case True
    from emitter_dict_entry [OF True e] m True show ?thesis
      by (auto simp: emitter_matrix_def Let_def)
  next
    case False
    from other_dict_entry [OF False e] m False show ?thesis by auto
  qed
qed

theorem get_psys_instances_emitter_matrix_witness:
  "\<not> ob_mblur_enabled (ex_object False [ex_modifier ex_emitter] ex_one_dupli) (ex_scene 0 1) \<and>
   fst (get_psys_instances (\<le>) (ex_object False [ex_modifier ex_emitter] ex_one_dupli) (ex_scene 0 1)) =
     Inr [(0, 7, [ex_particle_matrix])] \<and>
   mat_mul (Matrix_Translation (1, 2, 3))
     (mat_mul (mat_mul (Matrix_Scale 2 (1, 0, 0)) (Matrix_Scale 2 (0, 1, 0)))
              (Matrix_Scale 2 (0, 0, 1))) = ex_particle_matrix"
proof -
  let ?ob = "ex_object False [ex_modifier ex_emitter] ex_one_dupli"
  let ?scn = "ex_scene 0 1"
  have a: "\<not> ob_mblur_enabled ?ob ?scn"
    by (simp add: ob_mblur_enabled_def ex_object_def)
  have b: "fst (get_psys_instances (\<le>) ?ob ?scn) = Inr [(0, 7, [ex_particle_matrix])]"
    by (simp add: get_psys_instances_def ob_mblur_enabled_def static_dupli_dict_def
        ex_object_def ex_scene_def ex_emitter_def ex_modifier_def
        ex_one_dupli_def psys_particles_def scene_now_def dupli_list_create_def
        dupli_list_clear_def dict_of_pairs_def dict_update_def
        emitter_append_def emitter_matrix_closed_form ex_particle_matrix_def Let_def)
  have c: "(0, 7, [ex_particle_matrix]) \<in> set [(0, 7, [ex_particle_matrix])]" by simp
  from get_psys_instances_emitter_matrix [OF a b c]
  have "[ex_particle_matrix] =
     [mat_mul (Matrix_Translation (1, 2, 3))
     (mat_mul (mat_mul (Matrix_Scale 2 (1, 0, 0)) (Matrix_Scale 2 (0, 1, 0)))
              (Matrix_Scale 2 (0, 0, 1)))]"
    by (simp add: ex_object_def ex_modifier_def ex_emitter_def ex_scene_def scene_now_def
        vec_times_def vec_x_def vec_y_def vec_z_def Let_def)
  with a b show ?thesis by simp
qed

section \<open>The number of matrices of an instance record\<close>

lemma emitter_append_counts:
  "\<forall>e \<in> set d. length (snd (snd e)) = n \<Longrightarrow>
   \<forall>e \<in> set (emitter_append scn psys d). length (snd (snd e)) = Suc n"
  by (auto simp: emitter_append_def)

lemma emitter_frames_counts:
  "\<forall>e \<in> set d. length (snd (snd e)) = n \<Longrightarrow>
   \<forall>e \<in> set (fst (emitter_frames fs fo psys i ni d scn)). length (snd (snd e)) = n + length fs"
proof (induction fs arbitrary: ni d scn n)
  case Nil
  then show ?case by simp
next
  case (Cons f fs)
  let ?scn = "frame_set fo f scn"
  have "\<forall>e \<in> set (emitter_append ?scn psys d). length (snd (snd e)) = Suc n"
    using Cons.prems by (rule emitter_append_counts)
  from Cons.IH [OF this] show ?case by (simp add: Let_def)
qed

lemma hair_append_counts:
  "hair_append dl k d = Inr d' \<Longrightarrow> \<forall>e \<in> set d. length (snd (snd e)) = n \<Longrightarrow>
   \<forall>e \<in> set d'. length (snd (snd e)) = Suc n"
proof (induction d arbitrary: k d')
  case Nil
  then show ?case by simp
next
  case (Cons e d)
  from Cons.prems(1) obtain d1 where
    d1: "hair_append dl (Suc k) d = Inr d1"
    and d': "d' = (fst e, fst (snd e), snd (snd e) @ [dupli_matrix (dl ! k)]) # d1"
    by (auto split: if_splits sum.splits)
  have "\<forall>e \<in> set d. length (snd (snd e)) = n" using Cons.prems(2) by simp
  from Cons.IH [OF d1 this] have "\<forall>e \<in> set d1. length (snd (snd e)) = Suc n" .
  moreover have "length (snd (snd e)) = n" using Cons.prems(2) by simp
  ultimately show ?case using d' by simp
qed

lemma hair_frames_counts:
  "fst (hair_frames fs fo i ni d ob scn) = Inr (d', ni') \<Longrightarrow>
   \<forall>e \<in> set d. length (snd (snd e)) = n \<Longrightarrow>
   \<forall>e \<in> set d'. length (snd (snd e)) = n + length fs"
proof (induction fs arbitrary: ni d ob scn n)
  case Nil
  then show ?case by simp
next
  case (Cons f fs)
  let ?scn = "frame_set fo f scn"
  let ?ob = "dupli_list_create ?scn ''RENDER'' ob"
  from Cons.prems(1) obtain d1 where
    d1: "hair_append (dupli_list ?ob) i d = Inr d1"
    and rest: "fst (hair_frames fs fo i (i + length d) d1 (dupli_list_clear ?ob) ?scn) = Inr (d', ni')"
    by (cases "hair_append (dupli_list ?ob) i d") (auto simp: Let_def)
  have "\<forall>e \<in> set d1. length (snd (snd e)) = Suc n"
    using d1 Cons.prems(2) by (rule hair_append_counts)
  from Cons.IH [OF rest this] show ?case by simp
qed

lemma psys_mblur_emitter_counts:
  assumes "fst (psys_mblur_emitter ord ob scn1 fo psys index parts) = Inr (ReturnPair d i)"
    and "e \<in> set d"
  shows "length (snd (snd e)) = length (shutter_frames ord scn1)"
proof -
  let ?ob1 = "dupli_list_create scn1 ''RENDER'' ob"
  let ?d = "dict_of_pairs (map (\<lambda>p. (fst p, snd p, []::matrix list))
              (zip parts (map dupli_object (dupli_list ?ob1))))"
  let ?r = "emitter_frames (shutter_frames ord scn1) fo psys index index ?d scn1"
  obtain d' ni scn2 where r: "?r = (d', ni, scn2)" by (cases ?r) auto
  with assms(1) have "d = d'"
    by (auto simp: psys_mblur_emitter_def Let_def split: if_splits)
  moreover have "\<forall>e \<in> set (fst ?r). length (snd (snd e)) = 0 + length (shutter_frames ord scn1)"
    by (rule emitter_frames_counts) (rule fresh_dict_counts)
  ultimately show ?thesis using r assms(2) by simp
qed

lemma psys_mblur_hair_counts:
  assumes "fst (psys_mblur_hair ord ob scn1 fo index start tot parts) = Inr (ReturnPair d i)"
    and "e \<in> set d"
  shows "length (snd (snd e)) = length (shutter_frames ord scn1)"
proof -
  let ?ob1 = "dupli_list_create scn1 ''RENDER'' ob"
  from assms(1) obtain duplis where
    du: "dupli_objects_at (dupli_list ?ob1) [start..<tot] = Inr duplis"
    by (cases "dupli_objects_at (dupli_list ?ob1) [start..<tot]")
       (auto simp: psys_mblur_hair_def Let_def)
  let ?d = "dict_of_pairs (map (\<lambda>p. (fst p, snd p, []::matrix list)) (zip parts duplis))"
  let ?r = "hair_frames (shutter_frames ord scn1) fo index index ?d (dupli_list_clear ?ob1) scn1"
  obtain res ob3 scn2 where r: "?r = (res, ob3, scn2)" by (cases ?r) auto
  with assms(1) du obtain ni where "res = Inr (d, ni)"
    by (cases res) (auto simp: psys_mblur_hair_def Let_def)
  with r have "fst ?r = Inr (d, ni)" by simp
  from hair_frames_counts [OF this fresh_dict_counts] assms(2) show ?thesis by simp
qed

lemma sample_psys_mblur_counts:
  assumes "fst (sample_psys_mblur ord ob scn psys index start current_total) = Inr (ReturnPair d i)"
    and "e \<in> set d"
  shows "length (snd (snd e)) = (if shutter_open scn = shutter_close scn then 1 else 2)"
proof -
  let ?scn1 = "frame_set (frame_current scn) (shutter_open scn) scn"
  have "length (snd (snd e)) = length (shutter_frames ord ?scn1)"
    using assms psys_mblur_emitter_counts psys_mblur_hair_counts
    by (auto simp: sample_psys_mblur_def Let_def split: if_splits)
  then show ?thesis by (simp add: length_shutter_frames)
qed

lemma get_psys_instances_loop_mblur_counts:
  assumes "ob_mblur_enabled ob scn"
    and "shutter_open scn \<noteq> shutter_close scn"
    and "fst (get_psys_instances_loop ord mods all_duplis ct index ob scn) = Inr r"
    and "\<forall>e \<in> set all_duplis. length (snd (snd e)) = 2"
  shows "\<forall>e \<in> set r. length (snd (snd e)) = 2"
  using assms
proof (induction mods arbitrary: all_duplis ct index ob scn)
  case Nil
  then show ?case by simp
next
  case (Cons m rest)
  show ?case
  proof (cases "psys_selected m")
    case False
    with Cons.prems have "fst (get_psys_instances_loop ord rest all_duplis ct index ob scn) = Inr r"
      by (auto simp: psys_selected_def Let_def split: if_splits)
    from Cons.IH [OF Cons.prems(1,2) this Cons.prems(4)] show ?thesis .
  next
    case True
    let ?psys = "modifier_psys m"
    let ?ct = "ct + length (psys_particles scn ?psys)"
    let ?call = "sample_psys_mblur ord ob scn ?psys index ct ?ct"
    obtain res ob' scn' where call: "?call = (res, ob', scn')" by (cases ?call) auto
    have ob': "only_duplis_touched ob ob'"
      using sample_psys_mblur_object [of ob ord scn ?psys index ct ?ct] call by simp
    from True Cons.prems call obtain d i where
      res: "res = Inr (ReturnPair d i)"
      and rest: "fst (get_psys_instances_loop ord rest (dict_update all_duplis d) ?ct i ob' scn') = Inr r"
      by (cases res; cases "projr res")
         (auto simp: psys_selected_def Let_def split: if_splits)
    have "scn' = scn\<lparr>frame_subframe := 0\<rparr>"
      using sample_psys_mblur_result_scene [of ord ob scn ?psys index ct ?ct d i] call res
      by simp
    then have scn': "only_subframe_moved scn scn'" by simp
    have "fst ?call = Inr (ReturnPair d i)" using call res by simp
    then have d: "\<forall>e \<in> set d. length (snd (snd e)) = 2"
      using sample_psys_mblur_counts [of ord ob scn ?psys index ct ?ct d i] Cons.prems(2)
      by auto
    have upd: "\<forall>e \<in> set (dict_update all_duplis d). length (snd (snd e)) = 2"
      using set_dict_update [of all_duplis d] d Cons.prems(4) by blast
    have en: "ob_mblur_enabled ob' scn'"
      using Cons.prems(1) ob_mblur_enabled_preserved [OF ob' scn'] by simp
    have sh: "shutter_open scn' \<noteq> shutter_close scn'"
      using Cons.prems(2) only_subframe_moved_fields [OF scn'] by simp
    from Cons.IH [OF en sh rest upd] show ?thesis .
  qed
qed

lemma get_psys_instances_mblur_counts:
  assumes "ob_mblur_enabled ob scn"
    and "shutter_open scn \<noteq> shutter_close scn"
    and "fst (get_psys_instances ord ob scn) = Inr r"
    and "e \<in> set r"
  shows "length (snd (snd e)) = 2"
proof (cases "has_modifiers ob")
  case False
  with assms show ?thesis by (simp add: get_psys_instances_def)
next
  case True
  let ?loop = "get_psys_instances_loop ord (modifiers ob) [] 0 0 ob scn"
  obtain res ob2 scn2 where l: "?loop = (res, ob2, scn2)" by (cases ?loop) auto
  with assms True have "fst ?loop = Inr r"
    by (cases res) (auto simp: get_psys_instances_def Let_def)
  from get_psys_instances_loop_mblur_counts [OF assms(1,2) this] assms(4)
  show ?thesis by simp
qed

lemma sample_mblur_equal_shutter_counts:
  assumes "shutter_open scn = shutter_close scn"
  shows "\<exists>ms. fst (sample_mblur ob scn dupli) = Inr ms \<and> (\<forall>e \<in> set ms. length (snd e) = 2)"
  using sample_mblur_counts [of ob scn dupli] assms by auto

lemma get_instances_static_records:
  assumes "\<not> ob_mblur_enabled ob scn"
  shows "\<exists>r. fst (get_instances ob scn) = Inr r \<and> (\<forall>e \<in> set r. \<exists>m. snd e = Matrix m)"
  using get_instances_static [OF assms] by auto

lemma ex_split_frame_half: "split_frame (real_of_int 10 + 1/2) = (10, 1/2)"
  by (rule split_frame_within) simp_all

text \<open>
  Claim C1. The claim is that the matrix list of an instance record has length 1 without
  object motion blur and length 2 with it, in particular for every entry returned by
  \<^verbatim>\<open>sample_mblur\<close> and by \<^verbatim>\<open>sample_psys_mblur\<close>, for any shutter values. Without
  motion blur every record carries one matrix (\<open>get_psys_instances_static_counts\<close>,
  \<open>get_instances_static_records\<close>). With motion blur the code misses the claim in two
  places. \<^verbatim>\<open>sample_psys_mblur\<close> takes its samples in a loop over the set
  \<^verbatim>\<open>{asr_scn.shutter_open, asr_scn.shutter_close}\<close>, which has a single element when the
  shutter opens and closes at the same sub-frame, so each particle gets one matrix; its
  sibling \<^verbatim>\<open>sample_mblur\<close> makes two \<^verbatim>\<open>frame_set\<close> calls and takes two samples also then
  (\<open>sample_mblur_equal_shutter_counts\<close>), and with different shutter values
  \<^verbatim>\<open>sample_psys_mblur\<close> takes two as well (\<open>sample_psys_mblur_counts\<close>). And
  \<^verbatim>\<open>sample_mblur\<close> appends the shutter-close matrices by position over the
  shutter-close list only, so where the host generates fewer duplis at shutter close than
  at shutter open the trailing records keep their shutter-open matrix alone, against
  the \<^verbatim>\<open>[dupli matrix 1, dupli matrix 2]\<close> of its documentation. The two runs: a scene
  at frame 10 whose shutter opens and closes at sub-frame 1/2, an emitter system with one
  alive particle and one dupli; and a scene at frame 10 with the shutter from 0 to 1
  where the host generates two duplis at shutter open and one at shutter close.
\<close>

theorem motion_blur_records_with_one_matrix:
  "ob_mblur_enabled (ex_object True [ex_modifier ex_emitter] ex_one_dupli) (ex_scene (1/2) (1/2)) \<and>
   fst (sample_psys_mblur (\<le>) (ex_object True [ex_modifier ex_emitter] ex_one_dupli)
          (ex_scene (1/2) (1/2)) ex_emitter 0 0 1) =
     Inr (ReturnPair [(0, 7, [ex_particle_matrix])] 1) \<and>
   fst (get_psys_instances (\<le>) (ex_object True [ex_modifier ex_emitter] ex_one_dupli)
          (ex_scene (1/2) (1/2))) =
     Inr [(0, 7, [ex_particle_matrix])] \<and>
   ob_mblur_enabled (ex_object True [] ex_shrinking_duplis) (ex_scene 0 1) \<and>
   fst (sample_mblur (ex_object True [] ex_shrinking_duplis) (ex_scene 0 1) True) =
     Inr [(7, [ident4, shift4]), (8, [ident4])]"
  using ex_split_frame_10 ex_split_frame_half
  by (simp add: get_psys_instances_def ob_mblur_enabled_def sample_psys_mblur_def
      sample_mblur_def psys_mblur_emitter_def ex_object_def ex_scene_def ex_emitter_def
      ex_modifier_def ex_one_dupli_def ex_shrinking_duplis_def frame_set_def
      psys_particles_def scene_now_def dupli_list_create_def
      dupli_list_clear_def dict_of_pairs_def dict_update_def shutter_frames_def
      emitter_append_def emitter_matrix_closed_form ex_particle_matrix_def Let_def
      upt_rec [of 0])

section \<open>Properties of the translators\<close>

text \<open>
  Claim C8. \<^verbatim>\<open>set_transform_key(time, key_times)\<close> stores one sample in the translator's
  own transform sequence, at \<open>time\<close>, the converted world matrix of the host object: the
  sequence afterwards has that sample at \<open>time\<close> and is what it was at every other time.
  Nothing else changes: not the instance count, the host object reference, the name or
  the fields of a subclass, and not the assembly.
\<close>

theorem set_transform_key_adds_one_sample:
  "fst (set_transform_key cm time key_times (self, asm)) =
     self\<lparr>xform_seq := (xform_seq self)(time \<mapsto> cm (matrix_world (bl_obj self)))\<rparr> \<and>
   xform_seq (fst (set_transform_key cm time key_times (self, asm))) time =
     Some (cm (matrix_world (bl_obj self))) \<and>
   dom (xform_seq (fst (set_transform_key cm time key_times (self, asm)))) =
     insert time (dom (xform_seq self)) \<and>
   (xform_seq (fst (set_transform_key cm time key_times (self, asm)))) |` (- {time}) =
     (xform_seq self) |` (- {time}) \<and>
   num_instances (fst (set_transform_key cm time key_times (self, asm))) = num_instances self \<and>
   bl_obj (fst (set_transform_key cm time key_times (self, asm))) = bl_obj self \<and>
   appleseed_name (fst (set_transform_key cm time key_times (self, asm))) = appleseed_name self \<and>
   object_translator.more (fst (set_transform_key cm time key_times (self, asm))) =
     object_translator.more self \<and>
   snd (set_transform_key cm time key_times (self, asm)) = asm"
  by (simp add: set_transform_key_def set_transform_def)

lemma instance_unflushed_no_handle:
  "instance_unflushed st \<Longrightarrow> ass_inst (fst st) = None"
  by (induction rule: instance_unflushed.induct)
     (auto simp: InstanceTranslator_init_def add_instance_def set_transform_key_def
        InstanceTranslator_create_entities_def split: prod.splits)

lemma archive_unflushed_no_handle:
  "archive_unflushed st \<Longrightarrow> archive_ass_inst (fst st) = None"
  by (induction rule: archive_unflushed.induct)
     (auto simp: ArchiveTranslator_init_def add_instance_def set_transform_key_def
        ArchiveTranslator_create_entities_def split: prod.splits)

text \<open>
  Claim C2, amended. Calling \<^verbatim>\<open>InstanceTranslator.update\<close> or
  \<^verbatim>\<open>ArchiveTranslator.update\<close> before \<^verbatim>\<open>flush_entities\<close> has been invoked raises
  AttributeError, since the handle attribute is not there yet, and leaves both the
  translator and the renderer assembly unchanged.
\<close>

theorem update_before_flush_raises:
  "(instance_unflushed st \<longrightarrow> InstanceTranslator_update cm obj st = (Inl AttributeError, st)) \<and>
   (archive_unflushed st' \<longrightarrow> ArchiveTranslator_update cm obj st' = (Inl AttributeError, st'))"
  using instance_unflushed_no_handle [of st] archive_unflushed_no_handle [of st']
  by (cases st; cases st')
     (auto simp: InstanceTranslator_update_def ArchiveTranslator_update_def update_ass_inst_def)

theorem update_before_flush_raises_witness:
  "InstanceTranslator_update id ex_host_object
     (InstanceTranslator_init ex_host_object ''cube'' ''master'', ex_assembly) =
     (Inl AttributeError, InstanceTranslator_init ex_host_object ''cube'' ''master'', ex_assembly) \<and>
   ArchiveTranslator_update id ex_host_object
     (ArchiveTranslator_init ex_host_object ''cube'' ''//cube.appleseed'', ex_assembly) =
     (Inl AttributeError, ArchiveTranslator_init ex_host_object ''cube'' ''//cube.appleseed'',
      ex_assembly)"
  using update_before_flush_raises
      [of "(InstanceTranslator_init ex_host_object ''cube'' ''master'', ex_assembly)" id
          ex_host_object
          "(ArchiveTranslator_init ex_host_object ''cube'' ''//cube.appleseed'', ex_assembly)"]
    instance_unflushed.init [of ex_host_object "''cube''" "''master''" ex_assembly]
    archive_unflushed.init [of ex_host_object "''cube''" "''//cube.appleseed''" ex_assembly]
  by simp

text \<open>
  Claim C2 as stated (no exception is raised) fails on a freshly constructed translator.
\<close>

theorem update_before_flush_counterexample:
  "fst (InstanceTranslator_update id ex_host_object
          (InstanceTranslator_init ex_host_object ''cube'' ''master'', ex_assembly)) =
     Inl AttributeError \<and>
   fst (InstanceTranslator_update id ex_host_object
          (InstanceTranslator_init ex_host_object ''cube'' ''master'', ex_assembly)) \<noteq> Inr ()"
  by (simp add: InstanceTranslator_update_def InstanceTranslator_init_def update_ass_inst_def)

lemma update_after_flush:
  "InstanceTranslator_update cm obj (InstanceTranslator_flush_entities opt (self, asm)) =
     (Inr (),
      self\<lparr>xform_seq := opt (xform_seq self), ass_inst := Some (appleseed_name self @ ''_ass_inst'')\<rparr>,
      asm\<lparr>assembly_instances := (assembly_instances asm)
             (appleseed_name self @ ''_ass_inst'' \<mapsto>
                \<lparr>inst_assembly_name = master_name self @ ''_ass'',
                 inst_xform_seq = (opt (xform_seq self))(0 \<mapsto> cm (matrix_world obj))\<rparr>)\<rparr>)"
  by (simp add: InstanceTranslator_update_def InstanceTranslator_flush_entities_def
      update_ass_inst_def set_transform_def Let_def)

section \<open>Properties of calc\_fov\<close>

text \<open>
  Claim C5. \<^verbatim>\<open>calc_fov\<close> returns the camera angle converted to degrees, unchanged,
  whenever the rendered width is at least the rendered height, in particular when the two
  are equal; a result other than that is possible only when the width is strictly less
  than the height. (\<open>calc_fov_tall_corrected\<close> is an input on which the correction applies
  and changes the result.)
\<close>

theorem calc_fov_wide_unchanged:
  "(height \<le> width \<longrightarrow> calc_fov camera_ob width height = Inr (degrees (angle camera_ob))) \<and>
   (width = height \<longrightarrow> calc_fov camera_ob width height = Inr (degrees (angle camera_ob))) \<and>
   (calc_fov camera_ob width height \<noteq> Inr (degrees (angle camera_ob)) \<longrightarrow> width < height)"
  by (auto simp: calc_fov_def Let_def)

lemma degrees_strict_mono: "a < b \<Longrightarrow> degrees a < degrees b"
proof -
  assume "a < b"
  then have "a * 180 < b * 180" by simp
  then have "a * 180 / pi < b * 180 / pi"
    using pi_gt_zero by (rule divide_strict_right_mono)
  then show ?thesis by (simp add: degrees_def)
qed

lemma calc_fov_tall_corrected:
  "calc_fov \<lparr>angle = pi / 2\<rparr> 1 2 = Inr (degrees (2 * arctan (1 / 2))) \<and>
   calc_fov \<lparr>angle = pi / 2\<rparr> 1 2 \<noteq> Inr (degrees (pi / 2))"
proof -
  have t: "tan (pi / 4) = 1" by (rule tan_45)
  have v: "calc_fov \<lparr>angle = pi / 2\<rparr> 1 2 = Inr (degrees (2 * arctan (1 / 2)))"
    by (simp add: calc_fov_def Let_def t)
  have "arctan (1 / 2) < arctan 1" by (simp add: arctan_less_iff)
  then have "2 * arctan (1 / 2) < pi / 2" by (simp add: arctan_one)
  then have "degrees (2 * arctan (1 / 2)) < degrees (pi / 2)"
    by (rule degrees_strict_mono)
  then have "degrees (2 * arctan (1 / 2)) \<noteq> degrees (pi / 2)" by simp
  with v show ?thesis by simp
qed

theorem calc_fov_wide_unchanged_witness:
  "calc_fov \<lparr>angle = 1\<rparr> 1920 1080 = Inr (degrees 1) \<and>
   calc_fov \<lparr>angle = 1\<rparr> 1080 1080 = Inr (degrees 1) \<and>
   calc_fov \<lparr>angle = pi / 2\<rparr> 1 2 \<noteq> Inr (degrees (pi / 2)) \<and> (1::real) < 2"
proof -
  have a: "calc_fov \<lparr>angle = 1\<rparr> 1920 1080 = Inr (degrees 1)"
    using calc_fov_wide_unchanged [of 1080 1920 "\<lparr>angle = 1\<rparr>"] by simp
  have b: "calc_fov \<lparr>angle = 1\<rparr> 1080 1080 = Inr (degrees 1)"
    using calc_fov_wide_unchanged [of 1080 1080 "\<lparr>angle = 1\<rparr>"] by simp
  have c: "calc_fov \<lparr>angle = pi / 2\<rparr> 1 2 \<noteq> Inr (degrees (pi / 2))"
    using calc_fov_tall_corrected by blast
  then have d: "(1::real) < 2"
    using calc_fov_wide_unchanged [of 2 1 "\<lparr>angle = pi / 2\<rparr>"] by simp
  from a b c d show ?thesis by blast
qed

section \<open>Properties of read\_osl\_shaders\<close>

text \<open>
  Claim C7. When the preference for the appleseed binary directory is unset (the empty
  string), \<^verbatim>\<open>read_osl_shaders\<close> logs one warning and returns the empty list, and no
  shader file is handed to \<^verbatim>\<open>ShaderQuery.open\<close>.
\<close>

theorem read_osl_shaders_unset_directory:
  "appleseed_binary_directory env = [] \<Longrightarrow>
   read_osl_shaders env st =
     Some (st\<lparr>log_records := log_records st @
                [(''WARNING'',
                  ''[appleseed] WARNING: Path to appleseed's binary directory not set: '' @
                  ''rendering and OSL features will not be available.'')]\<rparr>,
           Inr []) \<and>
   opened_files (fst (the (read_osl_shaders env st))) = opened_files st"
  by (simp add: read_osl_shaders_def get_appleseed_bin_dir_def logger_def Let_def)

theorem read_osl_shaders_unset_directory_witness:
  "read_osl_shaders (ex_env []) ex_osl_state =
     Some (\<lparr>log_records =
                [(''WARNING'',
                  ''[appleseed] WARNING: Path to appleseed's binary directory not set: '' @
                  ''rendering and OSL features will not be available.'')],
             opened_files = []\<rparr>,
           Inr [])"
proof -
  have "appleseed_binary_directory (ex_env []) = []" by (simp add: ex_env_def)
  from read_osl_shaders_unset_directory [OF this, of ex_osl_state]
  show ?thesis by (simp add: ex_osl_state_def)
qed

lemma py_replace_example: "py_replace ''.oso'' [] ''a.oso'' = ''a''"
  by code_simp

lemma py_split_example: "py_split ''|'' (py_replace [CHR 0x22] [] (last (py_split '' = '' ''x = \"a|b\"''))) = [''a'', ''b'']"
  by code_simp

lemma find_bin_dir_hit: "os_basename env d = ''bin'' \<Longrightarrow> find_bin_dir env d = Some d"
  by (subst find_bin_dir.simps) simp

lemma read_osl_shaders_example:
  "read_osl_shaders (ex_env ''bin'') ex_osl_state =
     Some (\<lparr>log_records =
               [(''DEBUG'', ''[appleseed] Parsing OSL shaders...''),
                (''DEBUG'', ''[appleseed] Searching bin/shaders/appleseed for OSO files...''),
                (''DEBUG'', ''[appleseed] Reading a.oso...''),
                (''DEBUG'', ''[appleseed] Searching bin/shaders/blenderseed for OSO files...''),
                (''DEBUG'', ''[appleseed] Reading a.oso...''),
                (''DEBUG'', ''[appleseed] OSL parsing complete.'')],
             opened_files = [''bin/shaders/appleseed/a.oso'', ''bin/shaders/blenderseed/a.oso'']\<rparr>,
           Inr [PDict [(''inputs'', PList []), (''outputs'', PList []), (''name'', PStr ''a''),
                       (''filename'', PStr ''a''), (''category'', PStr ''other'')],
                PDict [(''inputs'', PList []), (''outputs'', PList []), (''name'', PStr ''a''),
                       (''filename'', PStr ''a''), (''category'', PStr ''other'')]])"
proof -
  have b: "get_appleseed_bin_dir (ex_env ''bin'') = ''bin''"
    by (simp add: get_appleseed_bin_dir_def realpath_def ex_env_def Let_def)
  have f: "find_bin_dir (ex_env ''bin'') ''bin'' = Some ''bin''"
    by (rule find_bin_dir_hit) (simp add: ex_env_def)
  have p: "get_osl_search_paths (ex_env ''bin'') =
             Some (''bin/bin'', [''bin/shaders/appleseed'', ''bin/shaders/blenderseed''])"
    by (simp add: get_osl_search_paths_def b f Let_def) (simp add: ex_env_def)
  have n: "osl_node (shader_query (ex_env ''bin'') x) ''a.oso'' =
             Inr (PDict [(''inputs'', PList []), (''outputs'', PList []), (''name'', PStr ''a''),
                       (''filename'', PStr ''a''), (''category'', PStr ''other'')])" for x
    by (simp add: osl_node_def ex_env_def err_bind_def py_replace_example Let_def)
  have e: "os_isdir (ex_env ''bin'') d" "os_listdir (ex_env ''bin'') d = [''a.oso'']"
    "os_join (ex_env ''bin'') d g = d @ ''/'' @ g" for d g
    by (simp_all add: ex_env_def)
  have s: "suffix ''.oso'' ''a.oso''" by (simp add: suffix_def)
  show ?thesis
    by (simp add: read_osl_shaders_def b p n e s logger_def ex_osl_state_def Let_def)
qed

end
